theory Spec2Isabelle
  imports Main "HOL-Library.List_Lexorder" "HOL-Library.AList"
begin

section \<open>Python values\<close>

text \<open>
  A Python \<open>str\<close> is a sequence of Unicode code points: \<open>len\<close> counts code points,
  slicing cuts between them and \<open><\<close> compares them lexicographically by code point.
  The ellipsis the preview appends (U+2026) and the dash of the summary heading (U+2014)
  lie outside the 8-bit characters of HOL's \<open>string\<close>, so a Python string is a list of
  code points here. \<open>ustr\<close> reads an ASCII literal as such a list.
\<close>

type_synonym ustring = "nat list"

definition ustr :: "string \<Rightarrow> ustring" where
  "ustr s = map of_char s"

text \<open>
  \<open>str(n)\<close> for a count \<open>n \<ge> 0\<close>: its decimal digits.
\<close>

fun py_str_nat :: "nat \<Rightarrow> ustring" where
  "py_str_nat n = (if n < 10 then [48 + n] else py_str_nat (n div 10) @ [48 + n mod 10])"

declare py_str_nat.simps [simp del]

text \<open>
  The code points \<open>str.strip()\<close> removes when called without an argument: those for which
  \<open>str.isspace()\<close> holds.
\<close>

definition py_isspace :: "nat \<Rightarrow> bool" where
  "py_isspace c =
     ((9 \<le> c \<and> c \<le> 13) \<or> (28 \<le> c \<and> c \<le> 32) \<or> c = 133 \<or> c = 160 \<or> c = 5760
      \<or> (8192 \<le> c \<and> c \<le> 8202) \<or> c = 8232 \<or> c = 8233 \<or> c = 8239 \<or> c = 8287
      \<or> c = 12288)"

definition py_strip :: "ustring \<Rightarrow> ustring" where
  "py_strip s = rev (dropWhile py_isspace (rev (dropWhile py_isspace s)))"

text \<open>\<open>s.replace(a, b)\<close> for a pattern \<open>a\<close> of one code point.\<close>

definition py_replace1 :: "nat \<Rightarrow> ustring \<Rightarrow> ustring \<Rightarrow> ustring" where
  "py_replace1 a b s = concat (map (\<lambda>c. if c = a then b else [c]) s)"

text \<open>
  What \<open>json.loads\<close> and \<open>r.json()\<close> return: \<open>None\<close>, a bool, an int, a str, a list, or
  a dict with string keys. A dict keeps the insertion order of its keys and is an
  association list here: \<open>map_of\<close> reads a key, \<open>AList.update\<close> overwrites a key in place
  and appends a new key at the end, as assignment to a Python dict does. Numbers with a
  fraction do not occur in the state file the program writes and are left out.
\<close>

datatype json =
    JNull
  | JBool bool
  | JInt int
  | JStr ustring
  | JList "json list"
  | JDict "(ustring \<times> json) list"

text \<open>
  The exceptions a run can raise. \<open>RuntimeError\<close> is the one the program raises itself,
  with its message; \<open>HTTPError\<close> is what \<open>raise_for_status\<close> raises, with the status;
  \<open>RequestException\<close> is a request that got no response (connection error, timeout).
\<close>

datatype exn =
    RuntimeError ustring
  | HTTPError nat
  | RequestException
  | JSONDecodeError
  | UnicodeDecodeError
  | OSError
  | AttributeError
  | KeyError ustring
  | TypeError
  | ValueError

text \<open>\<open>d.get(k, default)\<close> on a dict.\<close>

definition dict_get :: "(ustring \<times> json) list \<Rightarrow> ustring \<Rightarrow> json \<Rightarrow> json" where
  "dict_get d k dflt = (case map_of d k of None \<Rightarrow> dflt | Some v \<Rightarrow> v)"

text \<open>
  \<open>v.get(k, default)\<close> on any value: only a dict has the method \<open>get\<close>.
\<close>

definition get_method :: "json \<Rightarrow> ustring \<Rightarrow> json \<Rightarrow> exn + json" where
  "get_method v k dflt =
     (case v of JDict d \<Rightarrow> Inr (dict_get d k dflt) | _ \<Rightarrow> Inl AttributeError)"

text \<open>
  \<open>v[k]\<close> with a string \<open>k\<close> on any value: a dict without the key raises \<open>KeyError\<close>;
  a list or a string takes no string index, and the other values take no index at all.
\<close>

definition subscript :: "json \<Rightarrow> ustring \<Rightarrow> exn + json" where
  "subscript v k =
     (case v of
        JDict d \<Rightarrow> (case map_of d k of None \<Rightarrow> Inl (KeyError k) | Some x \<Rightarrow> Inr x)
      | _ \<Rightarrow> Inl TypeError)"

text \<open>The truth value of a JSON value in a condition (\<open>if since_id:\<close>).\<close>

fun truthy :: "json \<Rightarrow> bool" where
  "truthy JNull = False"
| "truthy (JBool b) = b"
| "truthy (JInt i) = (i \<noteq> 0)"
| "truthy (JStr s) = (s \<noteq> [])"
| "truthy (JList xs) = (xs \<noteq> [])"
| "truthy (JDict d) = (d \<noteq> [])"

text \<open>The string a value is, if it is one.\<close>

fun the_str :: "json \<Rightarrow> ustring option" where
  "the_str (JStr s) = Some s"
| "the_str v = None"

section \<open>The world a run sees\<close>

text \<open>
  A response of \<open>requests.get\<close>: its status code and what \<open>r.json()\<close> returns, \<open>None\<close>
  when the body is not JSON and \<open>r.json()\<close> raises its \<open>JSONDecodeError\<close>.
\<close>

record response =
  status_code :: nat
  json_body :: "json option"

text \<open>
  The content of \<open>state.json\<close>, by what \<open>load_state\<close> meets when it is there:
  \<open>STATE_FILE.exists()\<close> raises (the path cannot be examined), or \<open>read_text\<close> raises
  (\<open>OSError\<close> when the file cannot be opened, \<open>UnicodeDecodeError\<close> when its bytes are no
  text), or \<open>json.loads\<close> raises on the text (\<open>JSONDecodeError\<close>), or \<open>json.loads\<close> returns
  a value. \<open>save_state\<close> writes \<open>json.dumps(state, indent=2)\<close>, which \<open>json.loads\<close> reads
  back as \<open>state\<close>.
\<close>

datatype stored = Inaccessible exn | Unreadable exn | Malformed exn | Content json

text \<open>
  The environment of one run.
  \<^item> The two environment variables.
  \<^item> The remote API behind \<open>requests.get\<close>: from URL, headers and query parameters to a
    response or an exception.
  \<^item> Three functions of the Python that runs the program. \<open>lower\<close> is \<open>str.lower\<close>.
    \<open>str_of\<close> is \<open>str\<close> on a value that is not a string, as an f-string formats it.
    \<open>sort_other\<close> is \<open>list.sort\<close> for two or more items whose keys are not all strings,
    from the keys and items to the sorted items, or \<open>None\<close> when a comparison of two keys
    raises \<open>TypeError\<close>; keys that are all strings are compared by the model itself.
  \<^item> The clock, as \<open>datetime.utcnow().strftime('%Y%m%dT%H%M%SZ')\<close> prints it.
  \<^item> The \<open>datetime\<close> library behind \<open>wib_time\<close>: \<open>fromisoformat\<close>, seven hours added,
    printed with \<open>'%Y-%m-%d %H:%M:%S WIB'\<close>, or the exception raised on the way.
\<close>

record world =
  HANDLE :: ustring
  BEARER :: "ustring option"
  requests_get :: "ustring \<Rightarrow> (ustring \<times> ustring) list \<Rightarrow> (ustring \<times> json) list
                     \<Rightarrow> exn + response"
  lower :: "ustring \<Rightarrow> ustring"
  str_of :: "json \<Rightarrow> ustring"
  sort_other :: "(json \<times> json) list \<Rightarrow> json list option"
  utcnow :: ustring
  plus7_strftime :: "ustring \<Rightarrow> exn + ustring"

text \<open>What a run does to the outside, in order.\<close>

datatype event =
    StateExists
  | StateRead
  | StateWrite json
  | HttpGet ustring "(ustring \<times> json) list"
  | Print ustring
  | PrintError ustring exn
  | ReportWrite ustring ustring

text \<open>How a run ends: \<open>main\<close> returns a status, or an exception reaches the top.\<close>

datatype outcome = Exit int | Uncaught exn

record run =
  events :: "event list"
  outcome :: outcome
  state_file :: "stored option"

section \<open>The program\<close>

definition BASE :: ustring where
  "BASE = ustr ''https://api.x.com/2''"

text \<open>\<open>f"{v}"\<close>: a string as it is, any other value through \<open>str\<close>.\<close>

definition py_str :: "world \<Rightarrow> json \<Rightarrow> ustring" where
  "py_str w v = (case v of JStr s \<Rightarrow> s | _ \<Rightarrow> str_of w v)"

text \<open>Only a string has the method \<open>replace\<close>.\<close>

definition wib_time :: "world \<Rightarrow> json \<Rightarrow> exn + ustring" where
  "wib_time w iso_str =
     (case iso_str of
        JStr s \<Rightarrow> plus7_strftime w (py_replace1 90 (ustr ''+00:00'') s)
      | _ \<Rightarrow> Inl AttributeError)"

definition missing_token :: ustring where
  "missing_token = ustr ''Missing X_BEARER_TOKEN in environment.''"

definition headers :: "world \<Rightarrow> exn + (ustring \<times> ustring) list" where
  "headers w =
     (case BEARER w of
        None \<Rightarrow> Inl (RuntimeError missing_token)
      | Some b \<Rightarrow>
          if b = [] then Inl (RuntimeError missing_token)
          else Inr [(ustr ''Authorization'', ustr ''Bearer '' @ b)])"

text \<open>
  \<open>raise_for_status\<close> of the \<open>requests\<close> library raises \<open>HTTPError\<close> for the client and
  server error statuses, 400 to 599, and returns for every other status.
\<close>

definition raise_for_status :: "nat \<Rightarrow> exn option" where
  "raise_for_status code = (if 400 \<le> code \<and> code < 600 then Some (HTTPError code) else None)"

text \<open>
  Each operation returns the events it caused and its result, \<open>Inl\<close> for an exception.
  \<open>headers()\<close> is an argument of \<open>requests.get\<close>, so it is evaluated, and raises, before
  the request is sent.
\<close>

definition get_user_id :: "world \<Rightarrow> ustring \<Rightarrow> event list \<times> (exn + json)" where
  "get_user_id w username =
     (let url = BASE @ ustr ''/users/by/username/'' @ username;
          params = [(ustr ''user.fields'', JStr (ustr ''name,username''))]
      in case headers w of
           Inl e \<Rightarrow> ([], Inl e)
         | Inr h \<Rightarrow>
             (case requests_get w url h params of
                Inl e \<Rightarrow> ([HttpGet url params], Inl e)
              | Inr r \<Rightarrow>
                  ([HttpGet url params],
                   case raise_for_status (status_code r) of
                     Some e \<Rightarrow> Inl e
                   | None \<Rightarrow>
                       (case json_body r of
                          None \<Rightarrow> Inl JSONDecodeError
                        | Some data \<Rightarrow>
                            (case subscript data (ustr ''data'') of
                               Inl e \<Rightarrow> Inl e
                             | Inr user \<Rightarrow> subscript user (ustr ''id''))))))"

definition load_state :: "stored option \<Rightarrow> event list \<times> (exn + json)" where
  "load_state fs =
     (case fs of
        None \<Rightarrow> ([StateExists], Inr (JDict []))
      | Some (Inaccessible e) \<Rightarrow> ([StateExists], Inl e)
      | Some (Unreadable e) \<Rightarrow> ([StateExists, StateRead], Inl e)
      | Some (Malformed e) \<Rightarrow> ([StateExists, StateRead], Inl e)
      | Some (Content j) \<Rightarrow> ([StateExists, StateRead], Inr j))"

definition save_state :: "json \<Rightarrow> event list \<times> stored option" where
  "save_state state = ([StateWrite state], Some (Content state))"

definition forbidden_hint :: ustring where
  "forbidden_hint =
     ustr ''403 Forbidden. Your API tier might not allow this endpoint or parameters.''"

definition fetch_params :: "json \<Rightarrow> (ustring \<times> json) list" where
  "fetch_params since_id =
     [(ustr ''max_results'', JInt 25),
      (ustr ''exclude'', JStr (ustr ''retweets,replies'')),
      (ustr ''tweet.fields'', JStr (ustr ''created_at,public_metrics,lang''))]
     @ (if truthy since_id then [(ustr ''since_id'', since_id)] else [])"

text \<open>
  \<open>tweets.sort(key=lambda t: t["id"])\<close>. Only a list has the method \<open>sort\<close>. It first
  computes the key of every item, in order, and the first \<open>t["id"]\<close> that raises ends it.
  Fewer than two items are not compared. Keys that are all strings are compared as strings,
  and the sort is stable; any other keys are sorted by \<open>sort_other\<close>.
\<close>

fun id_keys :: "json list \<Rightarrow> exn + json list" where
  "id_keys [] = Inr []"
| "id_keys (t # ts) =
     (case subscript t (ustr ''id'') of
        Inl e \<Rightarrow> Inl e
      | Inr k \<Rightarrow> (case id_keys ts of Inl e \<Rightarrow> Inl e | Inr ks \<Rightarrow> Inr (k # ks)))"

definition sort_by_id :: "world \<Rightarrow> json \<Rightarrow> exn + json list" where
  "sort_by_id w tweets =
     (case tweets of
        JList ts \<Rightarrow>
          (case id_keys ts of
             Inl e \<Rightarrow> Inl e
           | Inr ks \<Rightarrow>
               if length ts < 2 then Inr ts
               else
                 (case those (map the_str ks) of
                    Some ss \<Rightarrow> Inr (map snd (sort_key fst (zip ss ts)))
                  | None \<Rightarrow>
                      (case sort_other w (zip ks ts) of
                         None \<Rightarrow> Inl TypeError
                       | Some xs \<Rightarrow> Inr xs)))
      | _ \<Rightarrow> Inl AttributeError)"

text \<open>Lines 62 to 66: from what \<open>r.json()\<close> gives to the sorted posts.\<close>

definition read_tweets :: "world \<Rightarrow> json option \<Rightarrow> exn + json list" where
  "read_tweets w body =
     (case body of
        None \<Rightarrow> Inl JSONDecodeError
      | Some data \<Rightarrow>
          (case get_method data (ustr ''data'') (JList []) of
             Inl e \<Rightarrow> Inl e
           | Inr tweets \<Rightarrow> sort_by_id w tweets))"

definition fetch_new_tweets ::
  "world \<Rightarrow> json \<Rightarrow> json \<Rightarrow> event list \<times> (exn + json list)" where
  "fetch_new_tweets w user_id since_id =
     (let url = BASE @ ustr ''/users/'' @ py_str w user_id @ ustr ''/tweets'';
          params = fetch_params since_id
      in case headers w of
           Inl e \<Rightarrow> ([], Inl e)
         | Inr h \<Rightarrow>
             (case requests_get w url h params of
                Inl e \<Rightarrow> ([HttpGet url params], Inl e)
              | Inr r \<Rightarrow>
                  ([HttpGet url params],
                   if status_code r = 403 then Inl (RuntimeError forbidden_hint)
                   else
                     (case raise_for_status (status_code r) of
                        Some e \<Rightarrow> Inl e
                      | None \<Rightarrow> read_tweets w (json_body r)))))"

text \<open>
  The text of a post as \<open>summarize\<close> shows it: stripped, newlines replaced by spaces, and
  cut to 120 code points with the ellipsis appended when it is longer.
\<close>

definition clean_text :: "ustring \<Rightarrow> ustring" where
  "clean_text raw = py_replace1 10 [32] (py_strip raw)"

definition preview :: "ustring \<Rightarrow> ustring" where
  "preview raw =
     (let text = clean_text raw
      in if length text > 120 then take 120 text @ [8230] else text)"

text \<open>
  \<open>summarize\<close> reads \<open>t["created_at"]\<close>, then \<open>t.get("text", "")\<close>, whose value must have
  the method \<open>strip\<close>, then \<open>t['id']\<close> for the permalink, and calls \<open>wib_time\<close> last, when
  the line is put together.
\<close>

definition summarize :: "world \<Rightarrow> json \<Rightarrow> exn + ustring" where
  "summarize w t =
     (case subscript t (ustr ''created_at'') of
        Inl e \<Rightarrow> Inl e
      | Inr created_utc \<Rightarrow>
     (case get_method t (ustr ''text'') (JStr []) of
        Inl e \<Rightarrow> Inl e
      | Inr body \<Rightarrow>
     (case the_str body of
        None \<Rightarrow> Inl AttributeError
      | Some raw \<Rightarrow>
     (case subscript t (ustr ''id'') of
        Inl e \<Rightarrow> Inl e
      | Inr i \<Rightarrow>
     (case wib_time w created_utc of
        Inl e \<Rightarrow> Inl e
      | Inr ts \<Rightarrow>
          Inr (ustr ''- '' @ ts @ ustr '' | '' @ preview raw @ [10, 32, 32]
               @ ustr ''https://x.com/'' @ HANDLE w @ ustr ''/status/'' @ py_str w i))))))"

text \<open>
  The loop \<open>for t in new_tweets: ... summarize(t)\<close>: the lines rendered before the first
  exception, and that exception.
\<close>

fun summaries :: "world \<Rightarrow> json list \<Rightarrow> ustring list \<times> exn option" where
  "summaries w [] = ([], None)"
| "summaries w (t # ts) =
     (case summarize w t of
        Inl e \<Rightarrow> ([], Some e)
      | Inr s \<Rightarrow> (case summaries w ts of (ss, r) \<Rightarrow> (s # ss, r)))"

text \<open>\<open>handle_key = HANDLE.lower()\<close>.\<close>

definition handle_key :: "world \<Rightarrow> ustring" where
  "handle_key w = lower w (HANDLE w)"

text \<open>\<open>state.get(handle_key, {}).get("since_id")\<close>: only a dict has \<open>get\<close>.\<close>

definition get_last_id :: "json \<Rightarrow> ustring \<Rightarrow> exn + json" where
  "get_last_id state k =
     (case state of
        JDict d \<Rightarrow>
          (case dict_get d k (JDict []) of
             JDict r \<Rightarrow> Inr (dict_get r (ustr ''since_id'') JNull)
           | _ \<Rightarrow> Inl AttributeError)
      | _ \<Rightarrow> Inl AttributeError)"

text \<open>\<open>state.setdefault(handle_key, {})["since_id"] = newest_id\<close>.\<close>

definition set_since_id :: "json \<Rightarrow> ustring \<Rightarrow> json \<Rightarrow> exn + json" where
  "set_since_id state k newest_id =
     (case state of
        JDict d \<Rightarrow>
          (case dict_get d k (JDict []) of
             JDict r \<Rightarrow>
               Inr (JDict (AList.update k
                             (JDict (AList.update (ustr ''since_id'') newest_id r)) d))
           | _ \<Rightarrow> Inl TypeError)
      | _ \<Rightarrow> Inl AttributeError)"

text \<open>Lines 97 to 114 of \<open>main\<close>: a run that fetched at least one post.\<close>

definition report_name :: "world \<Rightarrow> ustring" where
  "report_name w = ustr ''report_'' @ HANDLE w @ ustr ''_'' @ utcnow w @ ustr ''.md''"

definition report :: "world \<Rightarrow> event list \<Rightarrow> json \<Rightarrow> json list \<Rightarrow> stored option \<Rightarrow> run" where
  "report w sofar state new_tweets fs =
     (case subscript (last new_tweets) (ustr ''id'') of
        Inl e \<Rightarrow> \<lparr>events = sofar, outcome = Uncaught e, state_file = fs\<rparr>
      | Inr newest_id \<Rightarrow>
     (case set_since_id state (handle_key w) newest_id of
        Inl e \<Rightarrow> \<lparr>events = sofar, outcome = Uncaught e, state_file = fs\<rparr>
      | Inr state' \<Rightarrow>
          (case save_state state' of
             (saved, fs') \<Rightarrow>
               (let heading =
                      Print ([64] @ HANDLE w @ [32, 8212, 32]
                             @ py_str_nat (length new_tweets) @ ustr '' new post(s):'')
                in case summaries w new_tweets of
                     (ss, Some e) \<Rightarrow>
                       \<lparr>events = sofar @ saved @ [heading] @ map Print ss,
                        outcome = Uncaught e, state_file = fs'\<rparr>
                   | (ss, None) \<Rightarrow>
                       \<lparr>events = sofar @ saved @ [heading] @ map Print ss
                          @ [ReportWrite (report_name w)
                               (ustr ''# Updates for @'' @ HANDLE w @ [10, 10]
                                @ concat (map (\<lambda>s. s @ [10]) ss)),
                             Print ([10] @ ustr ''Saved report: '' @ report_name w)],
                        outcome = Exit 0, state_file = fs'\<rparr>))))"

definition no_new_posts :: ustring where
  "no_new_posts = ustr ''No new posts since last check.''"

definition main :: "world \<Rightarrow> stored option \<Rightarrow> run" where
  "main w fs =
     (case load_state fs of
        (loaded, Inl e) \<Rightarrow> \<lparr>events = loaded, outcome = Uncaught e, state_file = fs\<rparr>
      | (loaded, Inr state) \<Rightarrow>
     (case get_last_id state (handle_key w) of
        Inl e \<Rightarrow> \<lparr>events = loaded, outcome = Uncaught e, state_file = fs\<rparr>
      | Inr last_id \<Rightarrow>
     (case get_user_id w (HANDLE w) of
        (resolved, Inl e) \<Rightarrow>
          \<lparr>events = loaded @ resolved
             @ [PrintError (ustr ''[ERROR] Failed to resolve user id for @'' @ HANDLE w
                            @ ustr '': '') e],
           outcome = Exit 1, state_file = fs\<rparr>
      | (resolved, Inr user_id) \<Rightarrow>
     (case fetch_new_tweets w user_id last_id of
        (fetched, Inl e) \<Rightarrow>
          \<lparr>events = loaded @ resolved @ fetched
             @ [PrintError (ustr ''[ERROR] Failed to fetch tweets: '') e],
           outcome = Exit 1, state_file = fs\<rparr>
      | (fetched, Inr new_tweets) \<Rightarrow>
          if new_tweets = [] then
            \<lparr>events = loaded @ resolved @ fetched @ [Print no_new_posts],
             outcome = Exit 0, state_file = fs\<rparr>
          else report w (loaded @ resolved @ fetched) state new_tweets fs))))"

section \<open>Observing a run\<close>

text \<open>The kinds of event: a write to a file, a network call, a line on the console.\<close>

fun is_write :: "event \<Rightarrow> bool" where
  "is_write (StateWrite j) = True"
| "is_write (ReportWrite n c) = True"
| "is_write e = False"

fun is_http :: "event \<Rightarrow> bool" where
  "is_http (HttpGet u p) = True"
| "is_http e = False"

fun is_output :: "event \<Rightarrow> bool" where
  "is_output (Print s) = True"
| "is_output (PrintError s e) = True"
| "is_output e = False"

text \<open>
  What the call \<open>fetch_new_tweets(user_id, last_id)\<close> of a run returns or raises; \<open>None\<close>
  when the run ends before the call.
\<close>

definition run_fetch :: "world \<Rightarrow> stored option \<Rightarrow> (exn + json list) option" where
  "run_fetch w fs =
     (case load_state fs of
        (loaded, Inl e) \<Rightarrow> None
      | (loaded, Inr state) \<Rightarrow>
     (case get_last_id state (handle_key w) of
        Inl e \<Rightarrow> None
      | Inr last_id \<Rightarrow>
     (case get_user_id w (HANDLE w) of
        (resolved, Inl e) \<Rightarrow> None
      | (resolved, Inr user_id) \<Rightarrow> Some (snd (fetch_new_tweets w user_id last_id)))))"

text \<open>The events of a run before its first line on the console.\<close>

definition io_before_output :: "event list \<Rightarrow> event list" where
  "io_before_output evs = takeWhile (\<lambda>e. \<not> is_output e) evs"

text \<open>The number an identifier denotes, read as decimal digits.\<close>

definition id_val :: "ustring \<Rightarrow> nat" where
  "id_val s = foldl (\<lambda>a c. 10 * a + (c - 48)) 0 s"

text \<open>
  The \<open>since_id\<close> the state file holds under a key (a lowercased handle), if it holds one.
\<close>

definition since_id_of :: "ustring \<Rightarrow> stored option \<Rightarrow> json option" where
  "since_id_of k fs =
     (case fs of
        Some (Content (JDict d)) \<Rightarrow>
          (case map_of d k of
             Some (JDict r) \<Rightarrow> map_of r (ustr ''since_id'')
           | _ \<Rightarrow> None)
      | _ \<Rightarrow> None)"

text \<open>
  Between two contents of the state file the watermark under a key has not decreased: where
  the first holds an identifier, the second holds one that is not smaller.
\<close>

definition not_decreased :: "ustring \<Rightarrow> stored option \<Rightarrow> stored option \<Rightarrow> bool" where
  "not_decreased k a b =
     (case since_id_of k a of
        Some (JStr old) \<Rightarrow>
          (case since_id_of k b of
             Some (JStr new) \<Rightarrow> id_val old \<le> id_val new
           | _ \<Rightarrow> False)
      | _ \<Rightarrow> True)"

text \<open>
  A sequence of runs, each in its own world, each starting from the state file the run
  before it left: the contents of the state file before the first run and after each run.
\<close>

fun run_seq :: "world list \<Rightarrow> stored option \<Rightarrow> stored option list" where
  "run_seq [] fs = [fs]"
| "run_seq (w # ws) fs = fs # run_seq ws (state_file (main w fs))"

text \<open>
  The remote API honours \<open>since_id\<close>: the posts it returns under the key \<open>data\<close> are
  objects whose \<open>id\<close> is a string, and to a request that carries a \<open>since_id\<close> it returns
  only posts with a larger identifier.
\<close>

definition honours_since :: "world \<Rightarrow> bool" where
  "honours_since w =
     (\<forall>url h params r d ts t.
        requests_get w url h params = Inr r \<longrightarrow>
        json_body r = Some (JDict d) \<longrightarrow>
        map_of d (ustr ''data'') = Some (JList ts) \<longrightarrow>
        t \<in> set ts \<longrightarrow>
        (\<exists>i. subscript t (ustr ''id'') = Inr (JStr i)
             \<and> (\<forall>since. map_of params (ustr ''since_id'') = Some (JStr since)
                          \<longrightarrow> id_val since < id_val i)))"

section \<open>Example worlds\<close>

definition post :: "string \<Rightarrow> string \<Rightarrow> json" where
  "post i body =
     JDict [(ustr ''id'', JStr (ustr i)),
            (ustr ''text'', JStr (ustr body)),
            (ustr ''created_at'', JStr (ustr ''2024-05-01T10:00:00.000Z''))]"

text \<open>The answer of the lookup endpoint for the handle, with account identifier 42.\<close>

definition lookup_url :: ustring where
  "lookup_url = ustr ''https://api.x.com/2/users/by/username/Alice''"

definition lookup_ok :: response where
  "lookup_ok =
     \<lparr>status_code = 200,
      json_body = Some (JDict [(ustr ''data'',
                                JDict [(ustr ''id'', JStr (ustr ''42'')),
                                       (ustr ''name'', JStr (ustr ''Alice'')),
                                       (ustr ''username'', JStr (ustr ''Alice''))])])\<rparr>"

text \<open>
  An API over the posts of the account: the list endpoint answers with the posts after
  \<open>since_id\<close>, all of them when the request has none, and leaves the key \<open>data\<close> out when
  there is none to return.
\<close>

definition timeline ::
  "json list \<Rightarrow> ustring \<Rightarrow> (ustring \<times> ustring) list \<Rightarrow> (ustring \<times> json) list
     \<Rightarrow> exn + response" where
  "timeline posts url h params =
     (if url = lookup_url then Inr lookup_ok
      else
        (let ts = (case map_of params (ustr ''since_id'') of
                     Some (JStr s) \<Rightarrow>
                       filter (\<lambda>t. case subscript t (ustr ''id'') of
                                      Inr (JStr i) \<Rightarrow> id_val s < id_val i
                                    | _ \<Rightarrow> False) posts
                   | _ \<Rightarrow> posts)
         in Inr \<lparr>status_code = 200,
                 json_body = Some (JDict (if ts = [] then [(ustr ''meta'', JDict [])]
                                          else [(ustr ''data'', JList ts)]))\<rparr>))"

text \<open>An API whose list endpoint answers every request with one status and one body.\<close>

definition answers ::
  "nat \<Rightarrow> json option \<Rightarrow> ustring \<Rightarrow> (ustring \<times> ustring) list
     \<Rightarrow> (ustring \<times> json) list \<Rightarrow> exn + response" where
  "answers code body url h params =
     (if url = lookup_url then Inr lookup_ok
      else Inr \<lparr>status_code = code, json_body = body\<rparr>)"

text \<open>
  The \<open>datetime\<close> library on the one timestamp the example posts carry.
\<close>

definition wib_clock :: "ustring \<Rightarrow> exn + ustring" where
  "wib_clock s =
     (if s = ustr ''2024-05-01T10:00:00.000+00:00'' then Inr (ustr ''2024-05-01 17:00:00 WIB'')
      else Inl ValueError)"

text \<open>
  \<open>str.lower\<close> on ASCII text, which is all the examples lower.
\<close>

definition ascii_lower :: "ustring \<Rightarrow> ustring" where
  "ascii_lower s = map (\<lambda>c. if 65 \<le> c \<and> c \<le> 90 then c + 32 else c) s"

text \<open>
  In the examples every identifier is a string, so \<open>str\<close> and the sort of other keys are
  never reached; the example world answers them with the empty text and \<open>None\<close>.
\<close>

definition example_world ::
  "ustring option
     \<Rightarrow> (ustring \<Rightarrow> (ustring \<times> ustring) list \<Rightarrow> (ustring \<times> json) list \<Rightarrow> exn + response)
     \<Rightarrow> world" where
  "example_world bearer api =
     \<lparr>HANDLE = ustr ''Alice'', BEARER = bearer, requests_get = api, lower = ascii_lower,
      str_of = (\<lambda>v. []), sort_other = (\<lambda>ps. None),
      utcnow = ustr ''20240501T120000Z'', plus7_strftime = wib_clock\<rparr>"

text \<open>
  The posts of the example account at a first run, in the order the API sends them, and at
  a later run; and a state file with a record for another handle, a field the program does
  not know in the record of the handle, and a top-level key that is no handle.
\<close>

definition first_posts :: "json list" where
  "first_posts = [post ''12'' ''c'', post ''10'' ''a'', post ''11'' ''b'']"

definition later_posts :: "json list" where
  "later_posts = post ''14'' ''e'' # post ''13'' ''d'' # first_posts"

definition example_state :: json where
  "example_state =
     JDict [(ustr ''bob'', JDict [(ustr ''since_id'', JStr (ustr ''5''))]),
            (ustr ''alice'', JDict [(ustr ''since_id'', JStr (ustr ''11'')),
                                    (ustr ''note'', JList [JInt 1, JNull])]),
            (ustr ''version'', JInt 2)]"

text \<open>
  Two posts from either side of the identifier \<open>10^18\<close>, which the platform passed in 2018:
  the newer one has 19 digits, the older one 18.
\<close>

definition boundary_posts :: "json list" where
  "boundary_posts =
     [post ''1000000000000000000'' ''newer'', post ''999999999999999999'' ''older'']"

section \<open>Properties\<close>

lemma py_replace1_single: "py_replace1 a [b] s = map (\<lambda>c. if c = a then b else c) s"
  by (induction s) (simp_all add: py_replace1_def)

lemma py_strip_id:
  assumes "s = [] \<or> (\<not> py_isspace (hd s) \<and> \<not> py_isspace (last s))"
  shows "py_strip s = s"
proof (cases "s = []")
  case True
  then show ?thesis by (simp add: py_strip_def)
next
  case False
  with assms have h: "\<not> py_isspace (hd s)" and l: "\<not> py_isspace (last s)" by auto
  have a: "dropWhile py_isspace s = s"
    using h by (simp add: dropWhile_eq_self_iff)
  have b: "dropWhile py_isspace (rev s) = rev s"
    using l False by (simp add: dropWhile_eq_self_iff hd_rev)
  show ?thesis by (simp add: py_strip_def a b)
qed

lemma clean_text_no_newline: "10 \<notin> set (clean_text raw)"
  by (auto simp: clean_text_def py_replace1_single)

subsection \<open>Runs in the example worlds: the pieces\<close>

lemma example_summarize:
  "summarize (example_world b api) (post i x)
   = Inr (ustr ''- 2024-05-01 17:00:00 WIB | '' @ preview (ustr x) @ [10, 32, 32]
          @ ustr ''https://x.com/Alice/status/'' @ ustr i)"
  by (simp add: summarize_def subscript_def get_method_def dict_get_def wib_time_def
        py_str_def example_world_def post_def wib_clock_def py_replace1_def ustr_def)

subsection \<open>C5: the truncation law of the preview\<close>

text \<open>
  C5 as stated fails: \<open>summarize\<close> strips the text before it measures and cuts it, so a text
  of at most 120 code points with a leading space is not shown verbatim.
\<close>

theorem preview_verbatim_counterexample:
  "length (ustr '' a'') \<le> 120 \<and> preview (ustr '' a'') = ustr ''a''
   \<and> preview (ustr '' a'') \<noteq> py_replace1 10 [32] (ustr '' a'')
   \<and> summarize (example_world None (timeline [])) (post ''7'' '' a'')
       = Inr (ustr ''- 2024-05-01 17:00:00 WIB | a'' @ [10, 32, 32]
              @ ustr ''https://x.com/Alice/status/7'')"
  by (simp add: example_summarize)
     (simp add: preview_def clean_text_def py_strip_def py_isspace_def py_replace1_def ustr_def)

text \<open>
  C5, amended: the law holds of the stripped text. Let \<open>s\<close> be the text of the post (empty
  when the post has none) without its leading and trailing whitespace and with every newline
  replaced by a space. When \<open>s\<close> has at most 120 code points the preview is \<open>s\<close>; when it has
  more, the preview is its first 120 code points followed by the ellipsis U+2026, 121 code
  points in all. The preview holds no newline. For a text that neither starts nor ends with
  whitespace, \<open>s\<close> is the text itself with its newlines replaced. The preview is what
  \<open>summarize\<close> puts between the timestamp and the permalink of a post with that text.
\<close>

theorem preview_truncation_law:
  assumes "s = map (\<lambda>c. if c = 10 then 32 else c) (py_strip raw)"
  shows "(length s \<le> 120 \<longrightarrow> preview raw = s)
         \<and> (120 < length s \<longrightarrow> preview raw = take 120 s @ [8230] \<and> length (preview raw) = 121)
         \<and> 10 \<notin> set (preview raw)
         \<and> (raw = [] \<or> (\<not> py_isspace (hd raw) \<and> \<not> py_isspace (last raw))
              \<longrightarrow> s = map (\<lambda>c. if c = 10 then 32 else c) raw)
         \<and> (\<forall>w t created i ts.
               subscript t (ustr ''created_at'') = Inr created \<longrightarrow>
               get_method t (ustr ''text'') (JStr []) = Inr (JStr raw) \<longrightarrow>
               subscript t (ustr ''id'') = Inr i \<longrightarrow>
               wib_time w created = Inr ts \<longrightarrow>
               summarize w t =
                 Inr (ustr ''- '' @ ts @ ustr '' | '' @ preview raw @ [10, 32, 32]
                      @ ustr ''https://x.com/'' @ HANDLE w @ ustr ''/status/'' @ py_str w i))"
proof -
  have c: "clean_text raw = s"
    using assms by (simp add: clean_text_def py_replace1_single)
  have n: "10 \<notin> set s"
    using clean_text_no_newline [of raw] c by simp
  have p1: "length s \<le> 120 \<longrightarrow> preview raw = s"
    by (simp add: preview_def c)
  have p2: "120 < length s \<longrightarrow> preview raw = take 120 s @ [8230] \<and> length (preview raw) = 121"
    by (simp add: preview_def c)
  have p3: "10 \<notin> set (preview raw)"
    using n by (auto simp: preview_def c dest: in_set_takeD)
  have p4: "raw = [] \<or> (\<not> py_isspace (hd raw) \<and> \<not> py_isspace (last raw))
              \<longrightarrow> s = map (\<lambda>c. if c = 10 then 32 else c) raw"
    using assms py_strip_id [of raw] by auto
  have p5: "\<forall>w t created i ts.
               subscript t (ustr ''created_at'') = Inr created \<longrightarrow>
               get_method t (ustr ''text'') (JStr []) = Inr (JStr raw) \<longrightarrow>
               subscript t (ustr ''id'') = Inr i \<longrightarrow>
               wib_time w created = Inr ts \<longrightarrow>
               summarize w t =
                 Inr (ustr ''- '' @ ts @ ustr '' | '' @ preview raw @ [10, 32, 32]
                      @ ustr ''https://x.com/'' @ HANDLE w @ ustr ''/status/'' @ py_str w i)"
    by (simp add: summarize_def)
  from p1 p2 p3 p4 p5 show ?thesis by blast
qed

theorem preview_truncation_law_witness:
  "preview (ustr ''  hi\<newline>yo '') = ustr ''hi yo''
   \<and> 10 \<notin> set (preview (ustr ''  hi\<newline>yo ''))"
proof -
  have b: "ustr ''hi yo'' =
             map (\<lambda>c. if c = 10 then 32 else c) (py_strip (ustr ''  hi\<newline>yo ''))"
    by (simp add: py_strip_def py_isspace_def ustr_def)
  have l: "length (ustr ''hi yo'') \<le> 120"
    by (simp add: ustr_def)
  from preview_truncation_law [OF b] l show ?thesis by blast
qed

subsection \<open>What the steps of a run do to the outside\<close>

lemma load_state_quiet:
  "load_state fs = (evs, r) \<Longrightarrow>
     filter is_output evs = [] \<and> filter is_write evs = [] \<and> filter is_http evs = []"
  by (auto simp: load_state_def split: option.splits stored.splits)

lemma load_state_events: "load_state fs = (evs, r) \<Longrightarrow> evs \<noteq> []"
  by (auto simp: load_state_def split: option.splits stored.splits)

lemma get_user_id_quiet:
  "get_user_id w u = (evs, r) \<Longrightarrow> filter is_output evs = [] \<and> filter is_write evs = []"
  by (auto simp: get_user_id_def Let_def split: sum.splits)

lemma fetch_new_tweets_quiet:
  "fetch_new_tweets w u s = (evs, r) \<Longrightarrow> filter is_output evs = [] \<and> filter is_write evs = []"
  by (auto simp: fetch_new_tweets_def Let_def split: sum.splits)

lemma main_empty_fetch:
  assumes l: "load_state fs = (loaded, Inr state)"
      and g: "get_last_id state (handle_key w) = Inr last_id"
      and u: "get_user_id w (HANDLE w) = (resolved, Inr user_id)"
      and f: "fetch_new_tweets w user_id last_id = (fetched, Inr [])"
  shows "outcome (main w fs) = Exit 0 \<and> state_file (main w fs) = fs
         \<and> filter is_output (events (main w fs)) = [Print no_new_posts]
         \<and> filter is_write (events (main w fs)) = []"
proof -
  have m: "main w fs = \<lparr>events = loaded @ resolved @ fetched @ [Print no_new_posts],
                        outcome = Exit 0, state_file = fs\<rparr>"
    by (simp add: main_def l g u f)
  show ?thesis
    using load_state_quiet [OF l] get_user_id_quiet [OF u] fetch_new_tweets_quiet [OF f]
    by (simp add: m)
qed

lemma example_key: "handle_key (example_world b api) = ustr ''alice''"
  by (simp add: handle_key_def example_world_def ascii_lower_def ustr_def)

lemma example_headers:
  "headers (example_world (Some (ustr ''tok'')) api)
   = Inr [(ustr ''Authorization'', ustr ''Bearer '' @ ustr ''tok'')]"
  by (simp add: headers_def example_world_def ustr_def)

lemma lookup_url_eq: "BASE @ ustr ''/users/by/username/'' @ ustr ''Alice'' = lookup_url"
  by (simp add: BASE_def lookup_url_def ustr_def)

lemma tweets_url_neq: "BASE @ ustr ''/users/'' @ ustr ''42'' @ ustr ''/tweets'' \<noteq> lookup_url"
  by (simp add: BASE_def lookup_url_def ustr_def)

lemma read_lookup_ok:
  "status_code lookup_ok = 200
   \<and> json_body lookup_ok
       = Some (JDict [(ustr ''data'',
                      JDict [(ustr ''id'', JStr (ustr ''42'')),
                             (ustr ''name'', JStr (ustr ''Alice'')),
                             (ustr ''username'', JStr (ustr ''Alice''))])])"
  by (simp add: lookup_ok_def)

lemma example_user_id:
  assumes "api lookup_url [(ustr ''Authorization'', ustr ''Bearer '' @ ustr ''tok'')]
             [(ustr ''user.fields'', JStr (ustr ''name,username''))] = Inr lookup_ok"
  shows "get_user_id (example_world (Some (ustr ''tok'')) api)
           (HANDLE (example_world (Some (ustr ''tok'')) api))
         = ([HttpGet lookup_url [(ustr ''user.fields'', JStr (ustr ''name,username''))]],
            Inr (JStr (ustr ''42'')))"
proof -
  have h: "HANDLE (example_world (Some (ustr ''tok'')) api) = ustr ''Alice''"
    by (simp add: example_world_def)
  have g: "requests_get (example_world (Some (ustr ''tok'')) api) = api"
    by (simp add: example_world_def)
  have s: "subscript (JDict [(ustr ''data'',
                      JDict [(ustr ''id'', JStr (ustr ''42'')),
                             (ustr ''name'', JStr (ustr ''Alice'')),
                             (ustr ''username'', JStr (ustr ''Alice''))])]) (ustr ''data'')
           = Inr (JDict [(ustr ''id'', JStr (ustr ''42'')),
                             (ustr ''name'', JStr (ustr ''Alice'')),
                             (ustr ''username'', JStr (ustr ''Alice''))])"
    by (simp add: subscript_def)
  have i: "subscript (JDict [(ustr ''id'', JStr (ustr ''42'')),
                             (ustr ''name'', JStr (ustr ''Alice'')),
                             (ustr ''username'', JStr (ustr ''Alice''))]) (ustr ''id'')
           = Inr (JStr (ustr ''42''))"
    by (simp add: subscript_def)
  show ?thesis
    by (simp add: get_user_id_def Let_def h g example_headers lookup_url_eq assms
          read_lookup_ok raise_for_status_def s i)
qed

lemma timeline_user_id:
  "get_user_id (example_world (Some (ustr ''tok'')) (timeline posts))
     (HANDLE (example_world (Some (ustr ''tok'')) (timeline posts)))
   = ([HttpGet lookup_url [(ustr ''user.fields'', JStr (ustr ''name,username''))]],
      Inr (JStr (ustr ''42'')))"
  by (rule example_user_id) (simp add: timeline_def)

lemma answers_user_id:
  "get_user_id (example_world (Some (ustr ''tok'')) (answers code body))
     (HANDLE (example_world (Some (ustr ''tok'')) (answers code body)))
   = ([HttpGet lookup_url [(ustr ''user.fields'', JStr (ustr ''name,username''))]],
      Inr (JStr (ustr ''42'')))"
  by (rule example_user_id) (simp add: answers_def)

lemma answers_fetch:
  "fetch_new_tweets (example_world (Some (ustr ''tok'')) (answers code body))
     (JStr (ustr ''42'')) s
   = ([HttpGet (BASE @ ustr ''/users/'' @ ustr ''42'' @ ustr ''/tweets'') (fetch_params s)],
      if code = 403 then Inl (RuntimeError forbidden_hint)
      else (case raise_for_status code of
              Some e \<Rightarrow> Inl e
            | None \<Rightarrow> read_tweets (example_world (Some (ustr ''tok'')) (answers code body)) body))"
proof -
  have g: "requests_get (example_world (Some (ustr ''tok'')) (answers code body))
             (BASE @ ustr ''/users/'' @ ustr ''42'' @ ustr ''/tweets'') h p
           = Inr \<lparr>status_code = code, json_body = body\<rparr>" for h p
    by (simp add: example_world_def answers_def tweets_url_neq)
  show ?thesis
    by (simp add: fetch_new_tweets_def Let_def example_headers py_str_def g
          split: option.splits)
qed

lemma load_none: "load_state None = ([StateExists], Inr (JDict []))"
  by (simp add: load_state_def)

lemma last_id_none: "get_last_id (JDict []) k = Inr JNull"
  by (simp add: get_last_id_def dict_get_def)

lemma read_no_data: "read_tweets w (Some (JDict [])) = Inr []"
  by (simp add: read_tweets_def get_method_def dict_get_def sort_by_id_def)

subsection \<open>C6: a run whose fetch returns no posts\<close>

text \<open>
  C6: in every run whose call of \<open>fetch_new_tweets\<close> returns the empty list, the only
  line printed is the no-new-posts message, no file is written (neither the state file nor
  a report), the state file is as it was, and the run exits with status 0.
\<close>

theorem empty_fetch_run:
  assumes "run_fetch w fs = Some (Inr [])"
  shows "outcome (main w fs) = Exit 0 \<and> state_file (main w fs) = fs
         \<and> filter is_output (events (main w fs)) = [Print no_new_posts]
         \<and> filter is_write (events (main w fs)) = []"
proof -
  obtain loaded state where l: "load_state fs = (loaded, Inr state)"
    using assms by (auto simp: run_fetch_def split: prod.splits sum.splits)
  obtain last_id where g: "get_last_id state (handle_key w) = Inr last_id"
    using assms l by (auto simp: run_fetch_def split: prod.splits sum.splits)
  obtain resolved user_id where u: "get_user_id w (HANDLE w) = (resolved, Inr user_id)"
    using assms l g by (auto simp: run_fetch_def split: prod.splits sum.splits)
  obtain fetched where f: "fetch_new_tweets w user_id last_id = (fetched, Inr [])"
    using assms l g u by (cases "fetch_new_tweets w user_id last_id") (auto simp: run_fetch_def)
  from main_empty_fetch [OF l g u f] show ?thesis .
qed

theorem empty_fetch_run_witness:
  "run_fetch (example_world (Some (ustr ''tok'')) (answers 200 (Some (JDict [])))) None
     = Some (Inr [])
   \<and> outcome (main (example_world (Some (ustr ''tok'')) (answers 200 (Some (JDict [])))) None)
       = Exit 0
   \<and> state_file (main (example_world (Some (ustr ''tok'')) (answers 200 (Some (JDict [])))) None)
       = None
   \<and> filter is_output
       (events (main (example_world (Some (ustr ''tok'')) (answers 200 (Some (JDict [])))) None))
       = [Print no_new_posts]
   \<and> filter is_write
       (events (main (example_world (Some (ustr ''tok'')) (answers 200 (Some (JDict [])))) None))
       = []"
proof -
  have h: "run_fetch (example_world (Some (ustr ''tok'')) (answers 200 (Some (JDict [])))) None
             = Some (Inr [])"
    by (simp add: run_fetch_def load_none last_id_none answers_user_id answers_fetch
          raise_for_status_def read_no_data)
  from empty_fetch_run [OF h] h show ?thesis by blast
qed

subsection \<open>C10: a response without the key data\<close>




subsection \<open>C4: a state file that cannot be read\<close>

text \<open>
  C4 as stated fails: \<open>load_state\<close> has no handler, and \<open>main\<close> calls it outside its
  \<open>try\<close> blocks. A run on a state file that \<open>json.loads\<close> rejects ends with the uncaught
  \<open>JSONDecodeError\<close>, where the same run without a state file exits with status 0.
\<close>

theorem corrupt_state_counterexample:
  "main (example_world (Some (ustr ''tok'')) (answers 200 (Some (JDict []))))
     (Some (Malformed JSONDecodeError)) =
     \<lparr>events = [StateExists, StateRead], outcome = Uncaught JSONDecodeError,
      state_file = Some (Malformed JSONDecodeError)\<rparr>
   \<and> outcome (main (example_world (Some (ustr ''tok'')) (answers 200 (Some (JDict [])))) None)
       = Exit 0"
  by (simp add: main_def load_state_def last_id_none answers_user_id answers_fetch
        raise_for_status_def read_no_data)

text \<open>
  C4, amended: when the state file exists and cannot be read or parsed, that is,
  \<open>read_text\<close> raises (an \<open>OSError\<close> when the file cannot be opened, a
  \<open>UnicodeDecodeError\<close> when its bytes are no text) or \<open>json.loads\<close> raises (a
  \<open>JSONDecodeError\<close>), the run ends with that very exception uncaught, right after reading
  the file: no network call, no output, the state file as it was. The same holds, before
  the read, when \<open>exists\<close> itself raises. Only a missing state file is read as the empty
  mapping.
\<close>

theorem corrupt_state_is_fatal:
  assumes "fs = Some (Unreadable e) \<or> fs = Some (Malformed e)"
  shows "main w fs =
           \<lparr>events = [StateExists, StateRead], outcome = Uncaught e, state_file = fs\<rparr>
         \<and> main w (Some (Inaccessible e)) =
             \<lparr>events = [StateExists], outcome = Uncaught e,
              state_file = Some (Inaccessible e)\<rparr>
         \<and> load_state None = ([StateExists], Inr (JDict []))"
  using assms by (auto simp: main_def load_state_def)

theorem corrupt_state_is_fatal_witness:
  "main (example_world (Some (ustr ''tok'')) (timeline [post ''10'' ''a'']))
     (Some (Unreadable UnicodeDecodeError)) =
     \<lparr>events = [StateExists, StateRead], outcome = Uncaught UnicodeDecodeError,
      state_file = Some (Unreadable UnicodeDecodeError)\<rparr>"
  using corrupt_state_is_fatal
          [of "Some (Unreadable UnicodeDecodeError)" UnicodeDecodeError
              "example_world (Some (ustr ''tok'')) (timeline [post ''10'' ''a''])"]
  by simp

subsection \<open>C7: a run without the bearer token\<close>

lemma headers_absent:
  "BEARER w = None \<or> BEARER w = Some [] \<Longrightarrow> headers w = Inl (RuntimeError missing_token)"
  by (auto simp: headers_def)

lemma get_user_id_absent:
  "BEARER w = None \<or> BEARER w = Some [] \<Longrightarrow>
     get_user_id w u = ([], Inl (RuntimeError missing_token))"
  by (simp add: get_user_id_def Let_def headers_absent)

lemma get_last_id_fails:
  "(\<exists>e. get_last_id state k = Inl e)
   \<longleftrightarrow> \<not> (\<exists>d r. state = JDict d \<and> dict_get d k (JDict []) = JDict r)"
  by (auto simp: get_last_id_def split: json.splits)

lemma get_last_id_error: "get_last_id state k = Inl e \<Longrightarrow> e = AttributeError"
  by (auto simp: get_last_id_def split: json.splits)

text \<open>
  C7 as stated fails: the token is checked when the headers of the first request are built,
  after \<open>load_state\<close> has asked whether the state file exists and has read it.
\<close>

theorem missing_token_io_counterexample:
  "BEARER (example_world None (timeline [])) = None
   \<and> events (main (example_world None (timeline [])) (Some (Content (JDict [])))) =
       [StateExists, StateRead,
        PrintError (ustr ''[ERROR] Failed to resolve user id for @Alice: '')
          (RuntimeError missing_token)]
   \<and> io_before_output (events (main (example_world None (timeline []))
                                  (Some (Content (JDict []))))) \<noteq> []"
proof -
  have b: "BEARER (example_world None (timeline [])) = None"
    by (simp add: example_world_def)
  have h: "HANDLE (example_world None (timeline [])) = ustr ''Alice''"
    by (simp add: example_world_def)
  have e: "events (main (example_world None (timeline [])) (Some (Content (JDict [])))) =
       [StateExists, StateRead,
        PrintError (ustr ''[ERROR] Failed to resolve user id for @Alice: '')
          (RuntimeError missing_token)]"
    by (simp add: main_def load_state_def last_id_none get_user_id_absent b h)
       (simp add: ustr_def)
  show ?thesis
    by (simp add: b e io_before_output_def)
qed

text \<open>
  C7, amended: when the bearer token is missing or empty, a run makes no network call,
  leaves the state file as it was and does not exit with status 0. The token is not
  checked before any I/O: the state file is checked and read first. When \<open>load_state\<close>
  raises, the run ends with that exception uncaught and prints nothing. When the loaded
  state is not a JSON object, or its value under the lowercased handle is not one, line 79
  raises \<open>AttributeError\<close>, and the run ends with it uncaught and prints nothing. In every
  other case the run prints the one diagnostic
  \<open>[ERROR] Failed to resolve user id for @<HANDLE>: Missing X_BEARER_TOKEN in environment.\<close>
  and exits with status 1, and the events before that line are those of \<open>load_state\<close>.
\<close>

theorem missing_token_run:
  assumes b: "BEARER w = None \<or> BEARER w = Some []"
  shows "filter is_http (events (main w fs)) = []
         \<and> outcome (main w fs) \<noteq> Exit 0
         \<and> state_file (main w fs) = fs
         \<and> (\<forall>loaded e.
               load_state fs = (loaded, Inl e) \<longrightarrow>
               main w fs = \<lparr>events = loaded, outcome = Uncaught e, state_file = fs\<rparr>)
         \<and> (\<forall>loaded state.
               load_state fs = (loaded, Inr state) \<longrightarrow>
               \<not> (\<exists>d r. state = JDict d \<and> dict_get d (handle_key w) (JDict []) = JDict r) \<longrightarrow>
               main w fs =
                 \<lparr>events = loaded, outcome = Uncaught AttributeError, state_file = fs\<rparr>)
         \<and> (\<forall>loaded d r.
               load_state fs = (loaded, Inr (JDict d)) \<longrightarrow>
               dict_get d (handle_key w) (JDict []) = JDict r \<longrightarrow>
               main w fs =
                 \<lparr>events = loaded
                    @ [PrintError (ustr ''[ERROR] Failed to resolve user id for @'' @ HANDLE w
                                   @ ustr '': '') (RuntimeError missing_token)],
                  outcome = Exit 1, state_file = fs\<rparr>
               \<and> io_before_output (events (main w fs)) = loaded \<and> loaded \<noteq> [])"
proof -
  obtain loaded r where l: "load_state fs = (loaded, r)"
    by (cases "load_state fs")
  note q = load_state_quiet [OF l]
  note ne = load_state_events [OF l]
  have io: "io_before_output (loaded @ [PrintError m e]) = loaded" for m e
    using q by (simp add: io_before_output_def takeWhile_append filter_empty_conv
                          takeWhile_eq_all_conv)
  show ?thesis
  proof (cases r)
    case (Inl e)
    then show ?thesis using l q by (simp add: main_def)
  next
    case (Inr state)
    show ?thesis
    proof (cases "get_last_id state (handle_key w)")
      case (Inl e)
      from get_last_id_error [OF Inl] have e: "e = AttributeError" .
      from Inl get_last_id_fails [of state "handle_key w"]
      have n: "\<not> (\<exists>d r. state = JDict d \<and> dict_get d (handle_key w) (JDict []) = JDict r)"
        by blast
      have m: "main w fs =
                 \<lparr>events = loaded, outcome = Uncaught AttributeError, state_file = fs\<rparr>"
        using l Inr Inl e by (simp add: main_def)
      show ?thesis
        using l Inr q n by (auto simp: m)
    next
      case g: (Inr last_id)
      from g get_last_id_fails [of state "handle_key w"]
      have y: "\<exists>d r. state = JDict d \<and> dict_get d (handle_key w) (JDict []) = JDict r"
        by auto
      have m: "main w fs =
                 \<lparr>events = loaded
                    @ [PrintError (ustr ''[ERROR] Failed to resolve user id for @'' @ HANDLE w
                                   @ ustr '': '') (RuntimeError missing_token)],
                  outcome = Exit 1, state_file = fs\<rparr>"
        using l Inr g by (simp add: main_def get_user_id_absent [OF b])
      show ?thesis
        using l Inr q ne y by (simp add: m io)
    qed
  qed
qed

theorem missing_token_run_witness:
  "main (example_world None (timeline [post ''10'' ''a''])) None =
     \<lparr>events = [StateExists,
                PrintError (ustr ''[ERROR] Failed to resolve user id for @'' @ ustr ''Alice''
                            @ ustr '': '') (RuntimeError missing_token)],
      outcome = Exit 1, state_file = None\<rparr>
   \<and> filter is_http (events (main (example_world None (timeline [post ''10'' ''a''])) None)) = []
   \<and> main (example_world None (timeline [post ''10'' ''a'']))
       (Some (Content (JDict [(ustr ''alice'', JNull)]))) =
     \<lparr>events = [StateExists, StateRead], outcome = Uncaught AttributeError,
      state_file = Some (Content (JDict [(ustr ''alice'', JNull)]))\<rparr>"
proof -
  let ?w = "example_world None (timeline [post ''10'' ''a''])"
  let ?fs = "Some (Content (JDict [(ustr ''alice'', JNull)]))"
  have b: "BEARER ?w = None \<or> BEARER ?w = Some []"
    by (simp add: example_world_def)
  have r: "dict_get [] (handle_key ?w) (JDict []) = JDict []"
    by (simp add: dict_get_def)
  have hd: "HANDLE ?w = ustr ''Alice''"
    by (simp add: example_world_def)
  have l: "load_state ?fs = ([StateExists, StateRead], Inr (JDict [(ustr ''alice'', JNull)]))"
    by (simp add: load_state_def)
  have n: "\<not> (\<exists>d r. JDict [(ustr ''alice'', JNull)] = JDict d
                    \<and> dict_get d (handle_key ?w) (JDict []) = JDict r)"
    by (simp add: example_key dict_get_def)
  from missing_token_run [OF b, of None] load_none r hd
  have 1: "main ?w None =
     \<lparr>events = [StateExists,
                PrintError (ustr ''[ERROR] Failed to resolve user id for @'' @ ustr ''Alice''
                            @ ustr '': '') (RuntimeError missing_token)],
      outcome = Exit 1, state_file = None\<rparr>
     \<and> filter is_http (events (main ?w None)) = []"
    by simp
  from missing_token_run [OF b, of ?fs] l n
  have 2: "main ?w ?fs =
     \<lparr>events = [StateExists, StateRead], outcome = Uncaught AttributeError, state_file = ?fs\<rparr>"
    by blast
  from 1 2 show ?thesis by blast
qed

subsection \<open>C8: how the fetch fails\<close>

lemma id_keys_not_runtime: "id_keys ts \<noteq> Inl (RuntimeError m)"
  by (induction ts) (auto simp: subscript_def split: json.splits option.splits sum.splits)

lemma read_tweets_not_runtime: "read_tweets w body \<noteq> Inl (RuntimeError m)"
  using id_keys_not_runtime
  by (auto simp: read_tweets_def get_method_def sort_by_id_def
           split: option.splits json.splits sum.splits)

text \<open>
  C8 as stated fails: \<open>raise_for_status\<close> raises for the statuses 400 to 599 only. A
  response with status 300 is not a success, and the fetch returns the posts of its body.
\<close>

theorem redirect_status_counterexample:
  "fetch_new_tweets (example_world (Some (ustr ''tok'')) (answers 300 (Some (JDict []))))
     (JStr (ustr ''42'')) JNull =
     ([HttpGet (ustr ''https://api.x.com/2/users/42/tweets'') (fetch_params JNull)], Inr [])"
  by (simp add: answers_fetch raise_for_status_def read_no_data) (simp add: BASE_def ustr_def)

text \<open>
  C8, amended: without a bearer token \<open>fetch_new_tweets\<close> raises the \<open>RuntimeError\<close> that
  names the missing token, and has made no network call. With a token and a response, it
  raises the \<open>RuntimeError\<close> with the hint about the API tier exactly when the status is
  403, and \<open>HTTPError\<close> for every other status from 400 to 599. A status below 400 or
  above 599 is not an error to it: the result is then decided by the body alone.
\<close>

theorem fetch_failures:
  "((BEARER w = None \<or> BEARER w = Some []) \<longrightarrow>
      fetch_new_tweets w user_id since_id = ([], Inl (RuntimeError missing_token)))
   \<and> (\<forall>h r. headers w = Inr h \<longrightarrow>
         requests_get w (BASE @ ustr ''/users/'' @ py_str w user_id @ ustr ''/tweets'') h
           (fetch_params since_id) = Inr r \<longrightarrow>
         (snd (fetch_new_tweets w user_id since_id) = Inl (RuntimeError forbidden_hint)
            \<longleftrightarrow> status_code r = 403)
         \<and> (status_code r \<noteq> 403 \<and> 400 \<le> status_code r \<and> status_code r < 600 \<longrightarrow>
              snd (fetch_new_tweets w user_id since_id) = Inl (HTTPError (status_code r)))
         \<and> (status_code r < 400 \<or> 600 \<le> status_code r \<longrightarrow>
              snd (fetch_new_tweets w user_id since_id) = read_tweets w (json_body r)))"
proof -
  have a: "(BEARER w = None \<or> BEARER w = Some []) \<longrightarrow>
             fetch_new_tweets w user_id since_id = ([], Inl (RuntimeError missing_token))"
    by (auto simp: fetch_new_tweets_def Let_def headers_def)
  have b: "(snd (fetch_new_tweets w user_id since_id) = Inl (RuntimeError forbidden_hint)
              \<longleftrightarrow> status_code r = 403)
           \<and> (status_code r \<noteq> 403 \<and> 400 \<le> status_code r \<and> status_code r < 600 \<longrightarrow>
                snd (fetch_new_tweets w user_id since_id) = Inl (HTTPError (status_code r)))
           \<and> (status_code r < 400 \<or> 600 \<le> status_code r \<longrightarrow>
                snd (fetch_new_tweets w user_id since_id) = read_tweets w (json_body r))"
    if h: "headers w = Inr h"
    and r: "requests_get w (BASE @ ustr ''/users/'' @ py_str w user_id @ ustr ''/tweets'') h
              (fetch_params since_id) = Inr r"
    for h r
  proof -
    have f: "snd (fetch_new_tweets w user_id since_id) =
               (if status_code r = 403 then Inl (RuntimeError forbidden_hint)
                else if 400 \<le> status_code r \<and> status_code r < 600
                     then Inl (HTTPError (status_code r))
                else read_tweets w (json_body r))"
      by (simp add: fetch_new_tweets_def Let_def h r raise_for_status_def)
    show ?thesis
      unfolding f by (simp add: read_tweets_not_runtime)
  qed
  from a b show ?thesis by blast
qed

theorem fetch_failures_witness:
  "fetch_new_tweets (example_world None (answers 200 (Some (JDict [])))) (JStr (ustr ''42'')) JNull
     = ([], Inl (RuntimeError missing_token))
   \<and> snd (fetch_new_tweets (example_world (Some (ustr ''tok'')) (answers 403 None))
            (JStr (ustr ''42'')) JNull) = Inl (RuntimeError forbidden_hint)
   \<and> snd (fetch_new_tweets (example_world (Some (ustr ''tok'')) (answers 500 None))
            (JStr (ustr ''42'')) JNull) = Inl (HTTPError 500)"
proof -
  let ?h = "[(ustr ''Authorization'', ustr ''Bearer '' @ ustr ''tok'')]"
  have b: "BEARER (example_world None (answers 200 (Some (JDict [])))) = None"
    by (simp add: example_world_def)
  have p: "py_str w (JStr (ustr ''42'')) = ustr ''42''" for w
    by (simp add: py_str_def)
  have r3: "requests_get (example_world (Some (ustr ''tok'')) (answers 403 None))
              (BASE @ ustr ''/users/'' @ ustr ''42'' @ ustr ''/tweets'') ?h (fetch_params JNull)
            = Inr \<lparr>status_code = 403, json_body = None\<rparr>"
    by (simp add: example_world_def answers_def tweets_url_neq)
  have r5: "requests_get (example_world (Some (ustr ''tok'')) (answers 500 None))
              (BASE @ ustr ''/users/'' @ ustr ''42'' @ ustr ''/tweets'') ?h (fetch_params JNull)
            = Inr \<lparr>status_code = 500, json_body = None\<rparr>"
    by (simp add: example_world_def answers_def tweets_url_neq)
  from fetch_failures [of "example_world None (answers 200 (Some (JDict [])))"
                          "JStr (ustr ''42'')" JNull] b
  have 1: "fetch_new_tweets (example_world None (answers 200 (Some (JDict []))))
             (JStr (ustr ''42'')) JNull = ([], Inl (RuntimeError missing_token))"
    by blast
  from fetch_failures [of "example_world (Some (ustr ''tok'')) (answers 403 None)"
                          "JStr (ustr ''42'')" JNull]
    example_headers r3
  have 2: "snd (fetch_new_tweets
                  (example_world (Some (ustr ''tok'')) (answers 403 None))
                  (JStr (ustr ''42'')) JNull) = Inl (RuntimeError forbidden_hint)"
    unfolding p by (metis response.select_convs(1))
  from fetch_failures [of "example_world (Some (ustr ''tok'')) (answers 500 None)"
                          "JStr (ustr ''42'')" JNull]
    example_headers r5
  have 3: "snd (fetch_new_tweets
                  (example_world (Some (ustr ''tok'')) (answers 500 None))
                  (JStr (ustr ''42'')) JNull) = Inl (HTTPError 500)"
    unfolding p by fastforce
  from 1 2 3 show ?thesis by blast
qed

subsection \<open>The paths of a run\<close>

lemma get_last_id_dict:
  assumes "get_last_id state k = Inr last_id"
  obtains d r where "state = JDict d" and "dict_get d k (JDict []) = JDict r"
    and "last_id = dict_get r (ustr ''since_id'') JNull"
  using assms by (auto simp: get_last_id_def split: json.splits)

text \<open>
  A run either ends before line 97, having written nothing, or it fetched at least one
  post and goes on as \<open>report\<close>.
\<close>

lemma main_paths:
  obtains
    (early) "filter is_write (events (main w fs)) = []" and "state_file (main w fs) = fs"
  | (late) loaded state last_id resolved user_id fetched new_tweets
    where "load_state fs = (loaded, Inr state)"
      and "get_last_id state (handle_key w) = Inr last_id"
      and "get_user_id w (HANDLE w) = (resolved, Inr user_id)"
      and "fetch_new_tweets w user_id last_id = (fetched, Inr new_tweets)"
      and "new_tweets \<noteq> []"
      and "main w fs = report w (loaded @ resolved @ fetched) state new_tweets fs"
proof -
  obtain loaded r1 where l: "load_state fs = (loaded, r1)"
    by (cases "load_state fs")
  note ql = load_state_quiet [OF l]
  show thesis
  proof (cases r1)
    case (Inl e)
    with l ql early show thesis by (simp add: main_def)
  next
    case s: (Inr state)
    show thesis
    proof (cases "get_last_id state (handle_key w)")
      case (Inl e)
      with l s ql early show thesis by (simp add: main_def)
    next
      case g: (Inr last_id)
      obtain resolved r2 where u: "get_user_id w (HANDLE w) = (resolved, r2)"
        by (cases "get_user_id w (HANDLE w)")
      note qu = get_user_id_quiet [OF u]
      show thesis
      proof (cases r2)
        case (Inl e)
        with l s g u ql qu early show thesis by (simp add: main_def)
      next
        case i: (Inr user_id)
        obtain fetched r3 where f: "fetch_new_tweets w user_id last_id = (fetched, r3)"
          by (cases "fetch_new_tweets w user_id last_id")
        note qf = fetch_new_tweets_quiet [OF f]
        show thesis
        proof (cases r3)
          case (Inl e)
          with l s g u i f ql qu qf early show thesis by (simp add: main_def)
        next
          case t: (Inr new_tweets)
          show thesis
          proof (cases "new_tweets = []")
            case True
            with l s g u i f t ql qu qf early show thesis by (simp add: main_def)
          next
            case False
            have "main w fs = report w (loaded @ resolved @ fetched) state new_tweets fs"
              using l s g u i f t False by (simp add: main_def)
            with l s g u i f t False late show thesis by blast
          qed
        qed
      qed
    qed
  qed
qed

lemma set_since_id_dict:
  assumes "dict_get d k (JDict []) = JDict r"
  shows "set_since_id (JDict d) k n =
           Inr (JDict (AList.update k (JDict (AList.update (ustr ''since_id'') n r)) d))"
  using assms by (simp add: set_since_id_def)

text \<open>\<open>new_tweets[-1]["id"]\<close> raises: the run ends there, before the write.\<close>

lemma report_no_id:
  assumes "subscript (last ts) (ustr ''id'') = Inl e"
  shows "report w sofar state ts fs = \<lparr>events = sofar, outcome = Uncaught e, state_file = fs\<rparr>"
  using assms by (simp add: report_def)

lemma report_writes:
  assumes "subscript (last ts) (ustr ''id'') = Inr newest"
      and "set_since_id state (handle_key w) newest = Inr state'"
      and "filter is_write sofar = []"
  shows "state_file (report w sofar state ts fs) = Some (Content state')"
    and "StateWrite j \<in> set (events (report w sofar state ts fs)) \<Longrightarrow> j = state'"
    and "StateWrite state' \<in> set (events (report w sofar state ts fs))"
  using assms
  by (auto simp: report_def save_state_def Let_def filter_empty_conv
           split: prod.splits option.splits)

text \<open>A run that fetched posts writes the loaded dict with the new \<open>since_id\<close>.\<close>

lemma main_advances:
  assumes l: "load_state fs = (loaded, Inr (JDict d))"
      and r: "dict_get d (handle_key w) (JDict []) = JDict r"
      and u: "get_user_id w (HANDLE w) = (resolved, Inr user_id)"
      and f: "fetch_new_tweets w user_id (dict_get r (ustr ''since_id'') JNull)
                = (fetched, Inr ts)"
      and n: "ts \<noteq> []"
      and i: "subscript (last ts) (ustr ''id'') = Inr newest"
      and s: "state' = JDict (AList.update (handle_key w)
                (JDict (AList.update (ustr ''since_id'') newest r)) d)"
  shows "state_file (main w fs) = Some (Content state')"
    and "StateWrite state' \<in> set (events (main w fs))"
proof -
  have g: "get_last_id (JDict d) (handle_key w) = Inr (dict_get r (ustr ''since_id'') JNull)"
    by (simp add: get_last_id_def r)
  have m: "main w fs = report w (loaded @ resolved @ fetched) (JDict d) ts fs"
    using n by (simp add: main_def l g u f)
  have a: "set_since_id (JDict d) (handle_key w) newest = Inr state'"
    using set_since_id_dict [OF r] s by simp
  have q: "filter is_write (loaded @ resolved @ fetched) = []"
    using load_state_quiet [OF l] get_user_id_quiet [OF u] fetch_new_tweets_quiet [OF f]
    by simp
  show "state_file (main w fs) = Some (Content state')"
    unfolding m by (rule report_writes(1) [OF i a q])
  show "StateWrite state' \<in> set (events (main w fs))"
    unfolding m by (rule report_writes(3) [OF i a q])
qed

text \<open>What a run that fetched posts and rendered them all prints.\<close>

lemma main_late_output:
  assumes l: "load_state fs = (loaded, Inr (JDict d))"
      and r: "dict_get d (handle_key w) (JDict []) = JDict r"
      and u: "get_user_id w (HANDLE w) = (resolved, Inr user_id)"
      and f: "fetch_new_tweets w user_id (dict_get r (ustr ''since_id'') JNull)
                = (fetched, Inr ts)"
      and n: "ts \<noteq> []"
      and i: "subscript (last ts) (ustr ''id'') = Inr newest"
      and s: "summaries w ts = (ss, None)"
  shows "filter is_output (events (main w fs))
         = Print ([64] @ HANDLE w @ [32, 8212, 32] @ py_str_nat (length ts)
                  @ ustr '' new post(s):'')
           # map Print ss @ [Print ([10] @ ustr ''Saved report: '' @ report_name w)]"
proof -
  have g: "get_last_id (JDict d) (handle_key w) = Inr (dict_get r (ustr ''since_id'') JNull)"
    by (simp add: get_last_id_def r)
  have m: "main w fs = report w (loaded @ resolved @ fetched) (JDict d) ts fs"
    using n by (simp add: main_def l g u f)
  have q: "filter is_output (loaded @ resolved @ fetched) = []"
    using load_state_quiet [OF l] get_user_id_quiet [OF u] fetch_new_tweets_quiet [OF f]
    by simp
  have p: "filter is_output (map Print ss) = map Print ss"
    by (induction ss) simp_all
  show ?thesis
    using q by (simp add: m report_def i set_since_id_dict [OF r] save_state_def Let_def s p)
qed

subsection \<open>The sort of posts whose identifiers are strings\<close>

lemma id_keys_strings:
  assumes "\<forall>t \<in> set ts. \<exists>i. subscript t (ustr ''id'') = Inr (JStr i)"
  shows "\<exists>ss. id_keys ts = Inr (map JStr ss) \<and> length ss = length ts"
  using assms
proof (induction ts)
  case Nil
  then show ?case by simp
next
  case (Cons t ts)
  from Cons.prems obtain i where i: "subscript t (ustr ''id'') = Inr (JStr i)" by auto
  from Cons obtain ss where s: "id_keys ts = Inr (map JStr ss)" and n: "length ss = length ts"
    by auto
  have "id_keys (t # ts) = Inr (map JStr (i # ss)) \<and> length (i # ss) = length (t # ts)"
    by (simp add: i s n)
  then show ?case by blast
qed

lemma those_strings: "those (map (the_str \<circ> JStr) ss) = Some ss"
  by (induction ss) simp_all

lemma set_sorted_zip:
  assumes "length ss = length ts"
  shows "set (map snd (sort_key fst (zip ss ts))) = set ts"
proof -
  have "set (map snd (sort_key fst (zip ss ts))) = snd ` set (zip ss ts)"
    by simp
  also have "\<dots> = set (map snd (zip ss ts))"
    by simp
  also have "\<dots> = set ts"
    using assms by simp
  finally show ?thesis .
qed

lemma sort_by_id_strings:
  assumes "\<forall>t \<in> set ts0. \<exists>i. subscript t (ustr ''id'') = Inr (JStr i)"
      and "sort_by_id w (JList ts0) = Inr ts"
  shows "set ts = set ts0"
proof -
  from id_keys_strings [OF assms(1)] obtain ss where
    k: "id_keys ts0 = Inr (map JStr ss)" and n: "length ss = length ts0" by blast
  show ?thesis
  proof (cases "length ts0 < 2")
    case True
    with assms(2) k show ?thesis by (simp add: sort_by_id_def)
  next
    case False
    with assms(2) k have "ts = map snd (sort_key fst (zip ss ts0))"
      by (simp add: sort_by_id_def those_strings)
    with set_sorted_zip [OF n] show ?thesis by simp
  qed
qed

subsection \<open>Runs in the example worlds\<close>

lemma post_id: "subscript (post i x) (ustr ''id'') = Inr (JStr (ustr i))"
  by (simp add: post_def subscript_def)

lemma timeline_fetch:
  "fetch_new_tweets (example_world (Some (ustr ''tok'')) (timeline posts)) (JStr (ustr ''42'')) s
   = ([HttpGet (BASE @ ustr ''/users/'' @ ustr ''42'' @ ustr ''/tweets'') (fetch_params s)],
      sort_by_id (example_world (Some (ustr ''tok'')) (timeline posts))
        (JList (case map_of (fetch_params s) (ustr ''since_id'') of
                  Some (JStr x) \<Rightarrow>
                    filter (\<lambda>t. case subscript t (ustr ''id'') of
                                   Inr (JStr i) \<Rightarrow> id_val x < id_val i
                                 | _ \<Rightarrow> False) posts
                | _ \<Rightarrow> posts)))"
proof -
  let ?w = "example_world (Some (ustr ''tok'')) (timeline posts)"
  let ?ts = "case map_of (fetch_params s) (ustr ''since_id'') of
                  Some (JStr x) \<Rightarrow>
                    filter (\<lambda>t. case subscript t (ustr ''id'') of
                                   Inr (JStr i) \<Rightarrow> id_val x < id_val i
                                 | _ \<Rightarrow> False) posts
                | _ \<Rightarrow> posts"
  have g: "requests_get ?w (BASE @ ustr ''/users/'' @ ustr ''42'' @ ustr ''/tweets'') h
             (fetch_params s)
           = Inr \<lparr>status_code = 200,
                  json_body = Some (JDict (if ?ts = [] then [(ustr ''meta'', JDict [])]
                                           else [(ustr ''data'', JList ?ts)]))\<rparr>" for h
    by (simp add: example_world_def timeline_def tweets_url_neq Let_def)
  have e: "sort_by_id ?w (JList []) = Inr []"
    by (simp add: sort_by_id_def)
  have m: "ustr ''data'' \<noteq> ustr ''meta''"
    by (simp add: ustr_def)
  have r: "read_tweets ?w (Some (JDict (if ?ts = [] then [(ustr ''meta'', JDict [])]
                                        else [(ustr ''data'', JList ?ts)])))
           = sort_by_id ?w (JList ?ts)"
    by (cases "?ts = []") (simp_all add: read_tweets_def get_method_def dict_get_def m e)
  show ?thesis
    by (simp add: fetch_new_tweets_def Let_def example_headers py_str_def g
          raise_for_status_def r)
qed

lemma no_since: "map_of (fetch_params JNull) (ustr ''since_id'') = None"
  by (simp add: fetch_params_def ustr_def)

lemma with_since:
  "s \<noteq> [] \<Longrightarrow> map_of (fetch_params (JStr s)) (ustr ''since_id'') = Some (JStr s)"
  by (simp add: fetch_params_def ustr_def)

lemma first_run_fetch:
  "fetch_new_tweets (example_world (Some (ustr ''tok'')) (timeline posts)) (JStr (ustr ''42''))
     (dict_get [] (ustr ''since_id'') JNull)
   = ([HttpGet (BASE @ ustr ''/users/'' @ ustr ''42'' @ ustr ''/tweets'') (fetch_params JNull)],
      sort_by_id (example_world (Some (ustr ''tok'')) (timeline posts)) (JList posts))"
  by (simp add: timeline_fetch dict_get_def no_since)

lemma sort_first_posts:
  "sort_by_id w (JList first_posts)
   = Inr [post ''10'' ''a'', post ''11'' ''b'', post ''12'' ''c'']"
  by (simp add: sort_by_id_def first_posts_def post_id) (simp add: post_def ustr_def)

lemma sort_boundary_posts:
  "sort_by_id w (JList boundary_posts)
   = Inr [post ''1000000000000000000'' ''newer'', post ''999999999999999999'' ''older'']"
  by (simp add: sort_by_id_def boundary_posts_def post_id) (simp add: post_def ustr_def)

lemma first_run:
  "state_file (main (example_world (Some (ustr ''tok'')) (timeline first_posts)) None)
   = Some (Content (JDict [(ustr ''alice'', JDict [(ustr ''since_id'', JStr (ustr ''12''))])]))"
proof -
  let ?w = "example_world (Some (ustr ''tok'')) (timeline first_posts)"
  have r: "dict_get [] (handle_key ?w) (JDict []) = JDict []"
    by (simp add: dict_get_def)
  have f: "fetch_new_tweets ?w (JStr (ustr ''42'')) (dict_get [] (ustr ''since_id'') JNull)
           = ([HttpGet (BASE @ ustr ''/users/'' @ ustr ''42'' @ ustr ''/tweets'')
                 (fetch_params JNull)],
              Inr [post ''10'' ''a'', post ''11'' ''b'', post ''12'' ''c''])"
    by (simp add: first_run_fetch sort_first_posts)
  show ?thesis
    by (rule main_advances(1) [OF load_none r timeline_user_id f])
       (simp_all add: example_key post_id)
qed

lemma later_run:
  "state_file (main (example_world (Some (ustr ''tok'')) (timeline later_posts))
     (Some (Content (JDict [(ustr ''alice'', JDict [(ustr ''since_id'', JStr (ustr ''12''))])]))))
   = Some (Content (JDict [(ustr ''alice'', JDict [(ustr ''since_id'', JStr (ustr ''14''))])]))"
proof -
  let ?w = "example_world (Some (ustr ''tok'')) (timeline later_posts)"
  let ?d = "[(ustr ''alice'', JDict [(ustr ''since_id'', JStr (ustr ''12''))])]"
  let ?r = "[(ustr ''since_id'', JStr (ustr ''12''))]"
  have l: "load_state (Some (Content (JDict ?d))) = ([StateExists, StateRead], Inr (JDict ?d))"
    by (simp add: load_state_def)
  have r: "dict_get ?d (handle_key ?w) (JDict []) = JDict ?r"
    by (simp add: dict_get_def example_key)
  have s: "dict_get ?r (ustr ''since_id'') JNull = JStr (ustr ''12'')"
    by (simp add: dict_get_def)
  have p: "map_of (fetch_params (JStr (ustr ''12''))) (ustr ''since_id'')
             = Some (JStr (ustr ''12''))"
    by (rule with_since) (simp add: ustr_def)
  have v: "filter (\<lambda>t. case subscript t (ustr ''id'') of
                          Inr (JStr i) \<Rightarrow> id_val (ustr ''12'') < id_val i
                        | _ \<Rightarrow> False) later_posts
           = [post ''14'' ''e'', post ''13'' ''d'']"
    by (simp add: later_posts_def first_posts_def post_id) (simp add: id_val_def ustr_def)
  have o: "sort_by_id ?w (JList [post ''14'' ''e'', post ''13'' ''d''])
           = Inr [post ''13'' ''d'', post ''14'' ''e'']"
    by (simp add: sort_by_id_def post_id) (simp add: post_def ustr_def)
  have f: "fetch_new_tweets ?w (JStr (ustr ''42'')) (dict_get ?r (ustr ''since_id'') JNull)
           = ([HttpGet (BASE @ ustr ''/users/'' @ ustr ''42'' @ ustr ''/tweets'')
                 (fetch_params (JStr (ustr ''12'')))],
              Inr [post ''13'' ''d'', post ''14'' ''e''])"
    by (simp add: timeline_fetch s p v o)
  show ?thesis
    by (rule main_advances(1) [OF l r timeline_user_id f])
       (simp_all add: example_key post_id)
qed

lemma boundary_fetch:
  "fetch_new_tweets (example_world (Some (ustr ''tok'')) (timeline boundary_posts))
     (JStr (ustr ''42'')) (dict_get [] (ustr ''since_id'') JNull)
   = ([HttpGet (BASE @ ustr ''/users/'' @ ustr ''42'' @ ustr ''/tweets'') (fetch_params JNull)],
      Inr [post ''1000000000000000000'' ''newer'', post ''999999999999999999'' ''older''])"
  by (simp add: first_run_fetch sort_boundary_posts)

lemma boundary_run:
  "state_file (main (example_world (Some (ustr ''tok'')) (timeline boundary_posts)) None)
   = Some (Content (JDict [(ustr ''alice'',
                            JDict [(ustr ''since_id'', JStr (ustr ''999999999999999999''))])]))"
proof -
  let ?w = "example_world (Some (ustr ''tok'')) (timeline boundary_posts)"
  have r: "dict_get [] (handle_key ?w) (JDict []) = JDict []"
    by (simp add: dict_get_def)
  show ?thesis
    by (rule main_advances(1) [OF load_none r timeline_user_id boundary_fetch])
       (simp_all add: example_key post_id)
qed

lemma preview_short:
  "preview (ustr ''newer'') = ustr ''newer'' \<and> preview (ustr ''older'') = ustr ''older''"
  by (simp add: preview_def clean_text_def py_strip_def py_isspace_def py_replace1_def ustr_def)

lemma boundary_output:
  "filter is_output
     (events (main (example_world (Some (ustr ''tok'')) (timeline boundary_posts)) None))
   = [Print ([64] @ ustr ''Alice'' @ [32, 8212, 32] @ ustr ''2 new post(s):''),
      Print (ustr ''- 2024-05-01 17:00:00 WIB | newer'' @ [10, 32, 32]
             @ ustr ''https://x.com/Alice/status/1000000000000000000''),
      Print (ustr ''- 2024-05-01 17:00:00 WIB | older'' @ [10, 32, 32]
             @ ustr ''https://x.com/Alice/status/999999999999999999''),
      Print ([10] @ ustr ''Saved report: report_Alice_20240501T120000Z.md'')]"
proof -
  let ?w = "example_world (Some (ustr ''tok'')) (timeline boundary_posts)"
  let ?ts = "[post ''1000000000000000000'' ''newer'', post ''999999999999999999'' ''older'']"
  have r: "dict_get [] (handle_key ?w) (JDict []) = JDict []"
    by (simp add: dict_get_def)
  have s: "summaries ?w ?ts
           = ([ustr ''- 2024-05-01 17:00:00 WIB | newer'' @ [10, 32, 32]
                 @ ustr ''https://x.com/Alice/status/1000000000000000000'',
               ustr ''- 2024-05-01 17:00:00 WIB | older'' @ [10, 32, 32]
                 @ ustr ''https://x.com/Alice/status/999999999999999999''], None)"
    by (simp add: example_summarize preview_short) (simp add: ustr_def)
  have n: "?ts \<noteq> []"
    by simp
  have i: "subscript (last ?ts) (ustr ''id'') = Inr (JStr (ustr ''999999999999999999''))"
    by (simp add: post_id)
  have c: "py_str_nat (length ?ts) = ustr ''2''"
    by (simp add: py_str_nat.simps ustr_def)
  have h: "HANDLE ?w = ustr ''Alice''"
    by (simp add: example_world_def)
  have rn: "report_name ?w = ustr ''report_Alice_20240501T120000Z.md''"
    by (simp add: report_name_def example_world_def ustr_def)
  show ?thesis
    unfolding main_late_output [OF load_none r timeline_user_id boundary_fetch n i s] c h rn
    by (simp add: ustr_def)
qed

lemma example_state_run:
  "StateWrite
     (JDict [(ustr ''bob'', JDict [(ustr ''since_id'', JStr (ustr ''5''))]),
             (ustr ''alice'', JDict [(ustr ''since_id'', JStr (ustr ''12'')),
                                     (ustr ''note'', JList [JInt 1, JNull])]),
             (ustr ''version'', JInt 2)])
   \<in> set (events (main (example_world (Some (ustr ''tok'')) (timeline first_posts))
                    (Some (Content example_state))))"
proof -
  let ?w = "example_world (Some (ustr ''tok'')) (timeline first_posts)"
  let ?r = "[(ustr ''since_id'', JStr (ustr ''11'')), (ustr ''note'', JList [JInt 1, JNull])]"
  let ?d = "[(ustr ''bob'', JDict [(ustr ''since_id'', JStr (ustr ''5''))]),
             (ustr ''alice'', JDict ?r), (ustr ''version'', JInt 2)]"
  have l: "load_state (Some (Content example_state)) = ([StateExists, StateRead], Inr (JDict ?d))"
    by (simp add: load_state_def example_state_def)
  have r: "dict_get ?d (handle_key ?w) (JDict []) = JDict ?r"
    by (simp add: dict_get_def example_key ustr_def)
  have s: "dict_get ?r (ustr ''since_id'') JNull = JStr (ustr ''11'')"
    by (simp add: dict_get_def)
  have p: "map_of (fetch_params (JStr (ustr ''11''))) (ustr ''since_id'')
             = Some (JStr (ustr ''11''))"
    by (rule with_since) (simp add: ustr_def)
  have v: "filter (\<lambda>t. case subscript t (ustr ''id'') of
                          Inr (JStr i) \<Rightarrow> id_val (ustr ''11'') < id_val i
                        | _ \<Rightarrow> False) first_posts
           = [post ''12'' ''c'']"
    by (simp add: first_posts_def post_id) (simp add: id_val_def ustr_def)
  have o: "sort_by_id ?w (JList [post ''12'' ''c'']) = Inr [post ''12'' ''c'']"
    by (simp add: sort_by_id_def post_id)
  have f: "fetch_new_tweets ?w (JStr (ustr ''42'')) (dict_get ?r (ustr ''since_id'') JNull)
           = ([HttpGet (BASE @ ustr ''/users/'' @ ustr ''42'' @ ustr ''/tweets'')
                 (fetch_params (JStr (ustr ''11'')))],
              Inr [post ''12'' ''c''])"
    by (simp add: timeline_fetch s p v o)
  show ?thesis
    by (rule main_advances(2) [OF l r timeline_user_id f])
       (simp_all add: example_key post_id, simp add: ustr_def)
qed

subsection \<open>C9: what a run leaves of the state file\<close>

text \<open>
  C9: a run that writes the state file had loaded a dict, and writes that dict with one
  change. Every top-level key other than the lowercased handle maps to what it mapped to
  before (or is still absent); the handle maps to a record in which every field other than
  \<open>since_id\<close> is what it was in the record loaded for the handle (the empty record when
  there was none), and \<open>since_id\<close> is the \<open>id\<close> of the last of the fetched posts. No key
  is rejected: the only condition on the loaded state is the one line 79 makes, that it is
  a dict and the value under the handle, if any, is a dict.
\<close>

theorem advance_preserves_other_keys:
  assumes "StateWrite j \<in> set (events (main w fs))"
  shows "\<exists>loaded d r d' r'.
           load_state fs = (loaded, Inr (JDict d))
           \<and> dict_get d (handle_key w) (JDict []) = JDict r
           \<and> j = JDict d' \<and> state_file (main w fs) = Some (Content (JDict d'))
           \<and> (\<forall>k. k \<noteq> handle_key w \<longrightarrow> map_of d' k = map_of d k)
           \<and> map_of d' (handle_key w) = Some (JDict r')
           \<and> (\<forall>f. f \<noteq> ustr ''since_id'' \<longrightarrow> map_of r' f = map_of r f)
           \<and> (\<exists>ts newest. run_fetch w fs = Some (Inr ts) \<and> ts \<noteq> []
                  \<and> subscript (last ts) (ustr ''id'') = Inr newest
                  \<and> map_of r' (ustr ''since_id'') = Some newest)"
proof (cases rule: main_paths [of w fs])
  case early
  with assms show ?thesis by (auto simp: filter_empty_conv)
next
  case (late loaded state last_id resolved user_id fetched new_tweets)
  from late(2) obtain d r where s: "state = JDict d"
    and r: "dict_get d (handle_key w) (JDict []) = JDict r"
    by (rule get_last_id_dict)
  have q: "filter is_write (loaded @ resolved @ fetched) = []"
    using load_state_quiet [OF late(1)] get_user_id_quiet [OF late(3)]
      fetch_new_tweets_quiet [OF late(4)] by simp
  have rf: "run_fetch w fs = Some (Inr new_tweets)"
    by (simp add: run_fetch_def late(1) late(2) late(3) late(4))
  show ?thesis
  proof (cases "subscript (last new_tweets) (ustr ''id'')")
    case (Inl e)
    from report_no_id [OF Inl] late(6) q assms show ?thesis
      by (auto simp: filter_empty_conv)
  next
    case (Inr newest)
    let ?k = "handle_key w"
    let ?r' = "AList.update (ustr ''since_id'') newest r"
    let ?d' = "AList.update ?k (JDict ?r') d"
    have a: "set_since_id state ?k newest = Inr (JDict ?d')"
      using set_since_id_dict [OF r] s by simp
    have j: "j = JDict ?d'"
      using report_writes(2) [OF Inr a q] assms late(6) by simp
    have f: "state_file (main w fs) = Some (Content (JDict ?d'))"
      using report_writes(1) [OF Inr a q] late(6) by simp
    have 1: "\<forall>k. k \<noteq> ?k \<longrightarrow> map_of ?d' k = map_of d k"
      by (simp add: update_conv')
    have 2: "map_of ?d' ?k = Some (JDict ?r')"
      by (simp add: update_conv')
    have 3: "\<forall>f. f \<noteq> ustr ''since_id'' \<longrightarrow> map_of ?r' f = map_of r f"
      by (simp add: update_conv')
    have 4: "\<exists>ts newest. run_fetch w fs = Some (Inr ts) \<and> ts \<noteq> []
                  \<and> subscript (last ts) (ustr ''id'') = Inr newest
                  \<and> map_of ?r' (ustr ''since_id'') = Some newest"
      using rf late(5) Inr by (auto simp: update_conv')
    from late(1) s r j f 1 2 3 4 show ?thesis by blast
  qed
qed

theorem advance_preserves_other_keys_witness:
  "\<exists>d' r'.
     state_file (main (example_world (Some (ustr ''tok'')) (timeline first_posts))
                   (Some (Content example_state))) = Some (Content (JDict d'))
     \<and> map_of d' (ustr ''bob'') = Some (JDict [(ustr ''since_id'', JStr (ustr ''5''))])
     \<and> map_of d' (ustr ''version'') = Some (JInt 2)
     \<and> map_of d' (ustr ''alice'') = Some (JDict r')
     \<and> map_of r' (ustr ''note'') = Some (JList [JInt 1, JNull])"
proof -
  let ?w = "example_world (Some (ustr ''tok'')) (timeline first_posts)"
  let ?fs = "Some (Content example_state)"
  let ?j = "JDict [(ustr ''bob'', JDict [(ustr ''since_id'', JStr (ustr ''5''))]),
                   (ustr ''alice'', JDict [(ustr ''since_id'', JStr (ustr ''12'')),
                                           (ustr ''note'', JList [JInt 1, JNull])]),
                   (ustr ''version'', JInt 2)]"
  have h: "StateWrite ?j \<in> set (events (main ?w ?fs))"
    by (rule example_state_run)
  from advance_preserves_other_keys [OF h] obtain loaded d r d' r' where
        l: "load_state ?fs = (loaded, Inr (JDict d))"
    and r: "dict_get d (ustr ''alice'') (JDict []) = JDict r"
    and f: "state_file (main ?w ?fs) = Some (Content (JDict d'))"
    and o: "\<forall>k. k \<noteq> ustr ''alice'' \<longrightarrow> map_of d' k = map_of d k"
    and a: "map_of d' (ustr ''alice'') = Some (JDict r')"
    and n: "\<forall>f. f \<noteq> ustr ''since_id'' \<longrightarrow> map_of r' f = map_of r f"
    unfolding example_key by blast
  from l have d: "JDict d = example_state"
    by (simp add: load_state_def)
  then have d0: "d = [(ustr ''bob'', JDict [(ustr ''since_id'', JStr (ustr ''5''))]),
            (ustr ''alice'', JDict [(ustr ''since_id'', JStr (ustr ''11'')),
                                    (ustr ''note'', JList [JInt 1, JNull])]),
            (ustr ''version'', JInt 2)]"
    by (simp add: example_state_def)
  from r have r0: "r = [(ustr ''since_id'', JStr (ustr ''11'')),
                        (ustr ''note'', JList [JInt 1, JNull])]"
    by (simp add: d0 dict_get_def ustr_def)
  have b: "map_of d' (ustr ''bob'') = Some (JDict [(ustr ''since_id'', JStr (ustr ''5''))])"
    using o by (simp add: d0 ustr_def)
  have v: "map_of d' (ustr ''version'') = Some (JInt 2)"
    using o by (simp add: d0 ustr_def)
  have t: "map_of r' (ustr ''note'') = Some (JList [JInt 1, JNull])"
    using n by (simp add: r0 ustr_def)
  from f b v a t show ?thesis by blast
qed

subsection \<open>C1: the watermark never decreases\<close>

lemma not_decreased_refl: "not_decreased k a a"
  by (simp add: not_decreased_def split: option.splits json.splits)

lemma not_decreased_trans:
  "not_decreased k a b \<Longrightarrow> not_decreased k b c \<Longrightarrow> not_decreased k a c"
  by (auto simp: not_decreased_def split: option.splits json.splits)

text \<open>
  What \<open>honours_since\<close> says of the API, the fetch hands on to the program: every post it
  returns has a string identifier, larger than the \<open>since_id\<close> it was called with.
\<close>

lemma fetch_after_since:
  assumes h: "honours_since w"
      and f: "fetch_new_tweets w u s = (evs, Inr ts)"
      and t: "t \<in> set ts"
  shows "\<exists>i. subscript t (ustr ''id'') = Inr (JStr i)
             \<and> (\<forall>old. s = JStr old \<longrightarrow> old \<noteq> [] \<longrightarrow> id_val old < id_val i)"
proof -
  from f obtain hd r where
        g: "requests_get w (BASE @ ustr ''/users/'' @ py_str w u @ ustr ''/tweets'') hd
              (fetch_params s) = Inr r"
    and b: "read_tweets w (json_body r) = Inr ts"
    by (auto simp: fetch_new_tweets_def Let_def split: sum.splits if_splits option.splits)
  from b obtain d where d: "json_body r = Some (JDict d)"
    and o: "sort_by_id w (dict_get d (ustr ''data'') (JList [])) = Inr ts"
    by (auto simp: read_tweets_def get_method_def split: option.splits json.splits sum.splits)
  from o obtain ts0 where l: "dict_get d (ustr ''data'') (JList []) = JList ts0"
    by (auto simp: sort_by_id_def split: json.splits)
  show ?thesis
  proof (cases "map_of d (ustr ''data'')")
    case None
    with l have "ts0 = []" by (simp add: dict_get_def)
    with o l have "ts = []" by (simp add: sort_by_id_def)
    with t show ?thesis by simp
  next
    case (Some v)
    with l have m: "map_of d (ustr ''data'') = Some (JList ts0)"
      by (simp add: dict_get_def)
    have a: "\<forall>x \<in> set ts0. \<exists>i. subscript x (ustr ''id'') = Inr (JStr i)
               \<and> (\<forall>since. map_of (fetch_params s) (ustr ''since_id'') = Some (JStr since)
                            \<longrightarrow> id_val since < id_val i)"
      using h g d m unfolding honours_since_def by blast
    then have "\<forall>x \<in> set ts0. \<exists>i. subscript x (ustr ''id'') = Inr (JStr i)"
      by blast
    from sort_by_id_strings [OF this] o l have "set ts = set ts0"
      by simp
    with t a obtain i where i: "subscript t (ustr ''id'') = Inr (JStr i)"
      and c: "\<forall>since. map_of (fetch_params s) (ustr ''since_id'') = Some (JStr since)
                        \<longrightarrow> id_val since < id_val i"
      by blast
    have "\<forall>old. s = JStr old \<longrightarrow> old \<noteq> [] \<longrightarrow> id_val old < id_val i"
      using c with_since by blast
    with i show ?thesis by blast
  qed
qed

lemma since_id_of_loaded:
  assumes l: "load_state fs = (loaded, Inr (JDict d))"
      and s: "since_id_of k fs = Some v"
  shows "\<exists>r. dict_get d k (JDict []) = JDict r \<and> map_of r (ustr ''since_id'') = Some v"
  using assms
  by (auto simp: load_state_def since_id_of_def dict_get_def
           split: option.splits stored.splits json.splits)

text \<open>One run, against an API that honours \<open>since_id\<close>.\<close>

lemma main_not_decreased:
  assumes h: "honours_since w"
  shows "not_decreased (handle_key w) fs (state_file (main w fs))"
proof (cases rule: main_paths [of w fs])
  case early
  then show ?thesis by (simp add: not_decreased_refl)
next
  case (late loaded state last_id resolved user_id fetched new_tweets)
  from late(2) obtain d r where s: "state = JDict d"
    and r: "dict_get d (handle_key w) (JDict []) = JDict r"
    and i: "last_id = dict_get r (ustr ''since_id'') JNull"
    by (rule get_last_id_dict)
  from late(5) have m: "last new_tweets \<in> set new_tweets" by simp
  from fetch_after_since [OF h late(4) m] obtain n where
        n: "subscript (last new_tweets) (ustr ''id'') = Inr (JStr n)"
    and a: "\<forall>old. last_id = JStr old \<longrightarrow> old \<noteq> [] \<longrightarrow> id_val old < id_val n"
    by blast
  let ?k = "handle_key w"
  let ?d' = "AList.update ?k (JDict (AList.update (ustr ''since_id'') (JStr n) r)) d"
  have q: "filter is_write (loaded @ resolved @ fetched) = []"
    using load_state_quiet [OF late(1)] get_user_id_quiet [OF late(3)]
      fetch_new_tweets_quiet [OF late(4)] by simp
  have b: "set_since_id state ?k (JStr n) = Inr (JDict ?d')"
    using set_since_id_dict [OF r] s by simp
  have f: "state_file (main w fs) = Some (Content (JDict ?d'))"
    using report_writes(1) [OF n b q] late(6) by simp
  have new: "since_id_of (handle_key w) (state_file (main w fs)) = Some (JStr n)"
    by (simp add: f since_id_of_def update_conv')
  have "id_val old \<le> id_val n" if o: "since_id_of (handle_key w) fs = Some (JStr old)" for old
  proof (cases "old = []")
    case True
    then show ?thesis by (simp add: id_val_def)
  next
    case False
    from since_id_of_loaded [OF late(1) [unfolded s] o] r
    have "map_of r (ustr ''since_id'') = Some (JStr old)" by auto
    with i have "last_id = JStr old" by (simp add: dict_get_def)
    with a False show ?thesis by auto
  qed
  then show ?thesis
    by (simp add: not_decreased_def new split: option.splits json.splits)
qed

lemma run_seq_not_decreased:
  assumes "\<forall>w \<in> set ws. handle_key w = k \<and> honours_since w"
  shows "\<forall>x \<in> set (run_seq ws fs). not_decreased k fs x"
  using assms
proof (induction ws arbitrary: fs)
  case Nil
  then show ?case by (simp add: not_decreased_refl)
next
  case (Cons w ws)
  have step: "not_decreased k fs (state_file (main w fs))"
    using Cons.prems main_not_decreased [of w fs] by auto
  have rest: "\<forall>x \<in> set (run_seq ws (state_file (main w fs))).
                not_decreased k (state_file (main w fs)) x"
    using Cons.IH Cons.prems by simp
  show ?case
    using step rest by (auto simp: not_decreased_refl intro: not_decreased_trans)
qed

lemma timeline_honours:
  assumes "\<forall>t \<in> set posts. \<exists>i. subscript t (ustr ''id'') = Inr (JStr i)"
  shows "honours_since (example_world b (timeline posts))"
  unfolding honours_since_def
proof (intro allI impI)
  fix url h params r d ts t
  assume g: "requests_get (example_world b (timeline posts)) url h params = Inr r"
    and j: "json_body r = Some (JDict d)"
    and m: "map_of d (ustr ''data'') = Some (JList ts)"
    and t: "t \<in> set ts"
  let ?sel = "case map_of params (ustr ''since_id'') of
                Some (JStr s) \<Rightarrow>
                  filter (\<lambda>t. case subscript t (ustr ''id'') of
                                 Inr (JStr i) \<Rightarrow> id_val s < id_val i
                               | _ \<Rightarrow> False) posts
              | _ \<Rightarrow> posts"
  have nl: "url \<noteq> lookup_url"
  proof
    assume "url = lookup_url"
    with g j m show False
      by (auto simp: example_world_def timeline_def lookup_ok_def)
  qed
  have k: "ustr ''data'' \<noteq> ustr ''meta''"
    by (simp add: ustr_def)
  from g j nl have d: "d = (if ?sel = [] then [(ustr ''meta'', JDict [])]
                            else [(ustr ''data'', JList ?sel)])"
    by (auto simp: example_world_def timeline_def Let_def)
  with m k have e: "ts = ?sel"
    by (auto split: if_splits)
  from t e have p: "t \<in> set posts"
    by (auto split: option.splits json.splits)
  with assms obtain i where i: "subscript t (ustr ''id'') = Inr (JStr i)"
    by blast
  have "id_val since < id_val i"
    if s: "map_of params (ustr ''since_id'') = Some (JStr since)" for since
    using t e i by (simp add: s)
  with i show "\<exists>i. subscript t (ustr ''id'') = Inr (JStr i)
                 \<and> (\<forall>since. map_of params (ustr ''since_id'') = Some (JStr since)
                              \<longrightarrow> id_val since < id_val i)"
    by blast
qed

text \<open>
  C1: take any sequence of runs for one handle, each against an API that honours
  \<open>since_id\<close> (the posts it returns have string identifiers, and to a request with a
  \<open>since_id\<close> it returns only posts with larger identifiers), each starting from the state
  file the run before it left. Then between any earlier and any later content of the state
  file the watermark of the handle has not decreased: once the file holds an identifier for
  the handle, it holds one at every later time, and its number is not smaller.
\<close>

theorem watermark_never_decreases:
  assumes "\<forall>w \<in> set ws. handle_key w = k \<and> honours_since w"
  shows "sorted_wrt (not_decreased k) (run_seq ws fs)"
  using assms
proof (induction ws arbitrary: fs)
  case Nil
  then show ?case by simp
next
  case (Cons w ws)
  have "\<forall>x \<in> set (run_seq (w # ws) fs). not_decreased k fs x"
    using run_seq_not_decreased [OF Cons.prems] .
  then have "\<forall>x \<in> set (run_seq ws (state_file (main w fs))). not_decreased k fs x"
    by simp
  moreover have "sorted_wrt (not_decreased k) (run_seq ws (state_file (main w fs)))"
    using Cons.IH Cons.prems by simp
  ultimately show ?case by simp
qed

theorem watermark_never_decreases_witness:
  "sorted_wrt (not_decreased (ustr ''alice''))
     (run_seq [example_world (Some (ustr ''tok'')) (timeline first_posts),
               example_world (Some (ustr ''tok'')) (timeline later_posts)] None)
   \<and> map (since_id_of (ustr ''alice''))
       (run_seq [example_world (Some (ustr ''tok'')) (timeline first_posts),
                 example_world (Some (ustr ''tok'')) (timeline later_posts)] None)
     = [None, Some (JStr (ustr ''12'')), Some (JStr (ustr ''14''))]"
proof -
  have p1: "\<forall>t \<in> set first_posts. \<exists>i. subscript t (ustr ''id'') = Inr (JStr i)"
    by (simp add: first_posts_def post_id)
  have p2: "\<forall>t \<in> set later_posts. \<exists>i. subscript t (ustr ''id'') = Inr (JStr i)"
    by (simp add: later_posts_def first_posts_def post_id)
  have h: "\<forall>w \<in> set [example_world (Some (ustr ''tok'')) (timeline first_posts),
                      example_world (Some (ustr ''tok'')) (timeline later_posts)].
             handle_key w = ustr ''alice'' \<and> honours_since w"
    by (simp add: timeline_honours [OF p1] timeline_honours [OF p2] example_key)
  have v: "map (since_id_of (ustr ''alice''))
       (run_seq [example_world (Some (ustr ''tok'')) (timeline first_posts),
                 example_world (Some (ustr ''tok'')) (timeline later_posts)] None)
     = [None, Some (JStr (ustr ''12'')), Some (JStr (ustr ''14''))]"
    by (simp add: first_run later_run since_id_of_def)
  from watermark_never_decreases [OF h, of None] v show ?thesis by blast
qed

subsection \<open>C2: the order of the summary\<close>

text \<open>
  C2 fails on the code: \<open>tweets.sort(key=lambda t: t["id"])\<close> compares the identifiers as
  strings. On a first run that fetches the posts 1000000000000000000 and
  999999999999999999, the 19-digit identifier sorts before the 18-digit one: the summary
  lists the newer post first, and the watermark written is the identifier of the older
  post, the smaller number.
\<close>

theorem string_sort_misorders_ids:
  "run_fetch (example_world (Some (ustr ''tok'')) (timeline boundary_posts)) None
     = Some (Inr [post ''1000000000000000000'' ''newer'', post ''999999999999999999'' ''older''])
   \<and> since_id_of (ustr ''alice'')
        (state_file (main (example_world (Some (ustr ''tok'')) (timeline boundary_posts)) None))
     = Some (JStr (ustr ''999999999999999999''))
   \<and> id_val (ustr ''999999999999999999'') < id_val (ustr ''1000000000000000000'')
   \<and> filter is_output
       (events (main (example_world (Some (ustr ''tok'')) (timeline boundary_posts)) None))
     = [Print ([64] @ ustr ''Alice'' @ [32, 8212, 32] @ ustr ''2 new post(s):''),
        Print (ustr ''- 2024-05-01 17:00:00 WIB | newer'' @ [10, 32, 32]
               @ ustr ''https://x.com/Alice/status/1000000000000000000''),
        Print (ustr ''- 2024-05-01 17:00:00 WIB | older'' @ [10, 32, 32]
               @ ustr ''https://x.com/Alice/status/999999999999999999''),
        Print ([10] @ ustr ''Saved report: report_Alice_20240501T120000Z.md'')]"
proof -
  have f: "run_fetch (example_world (Some (ustr ''tok'')) (timeline boundary_posts)) None
             = Some (Inr [post ''1000000000000000000'' ''newer'',
                          post ''999999999999999999'' ''older''])"
    using boundary_fetch
    by (simp add: run_fetch_def load_none last_id_none timeline_user_id dict_get_def)
  have s: "since_id_of (ustr ''alice'')
        (state_file (main (example_world (Some (ustr ''tok'')) (timeline boundary_posts)) None))
     = Some (JStr (ustr ''999999999999999999''))"
    by (simp add: boundary_run since_id_of_def)
  have v: "id_val (ustr ''999999999999999999'') < id_val (ustr ''1000000000000000000'')"
    by (simp add: id_val_def ustr_def)
  from f s v boundary_output show ?thesis by blast
qed

end
